theory Spec2Isabelle
  imports Complex_Main "HOL-Library.Sublist"
begin

section \<open>JavaScript values and strings\<close>

text \<open>
  The repository holds two front ends for the same job: the React component
  \<^verbatim>\<open>invoice_notifier_app.jsx\<close> and the plain script \<^verbatim>\<open>app.js\<close>. Both read
  spreadsheet rows, normalise the invoice date, classify rows as overdue and post the
  selected rows to a mail back end.

  Strings are byte lists. Case mapping and trimming are modelled on ASCII: the letters
  \<open>A\<close> to \<open>Z\<close> are lowered, and white space is space, tab, line feed, vertical tab,
  form feed and carriage return.
\<close>

definition isWhiteSpace :: "char \<Rightarrow> bool" where
  "isWhiteSpace c = (c = CHR '' '' \<or> c = CHR 0x09 \<or> c = CHR 0x0A \<or> c = CHR 0x0B
     \<or> c = CHR 0x0C \<or> c = CHR 0x0D)"

definition trim :: "string \<Rightarrow> string" where
  "trim s = rev (dropWhile isWhiteSpace (rev (dropWhile isWhiteSpace s)))"

definition toLowerChar :: "char \<Rightarrow> char" where
  "toLowerChar c =
     (let n = (of_char c :: nat) in if 65 \<le> n \<and> n \<le> 90 then char_of (n + 32) else c)"

definition toLowerCase :: "string \<Rightarrow> string" where
  "toLowerCase s = map toLowerChar s"

fun startsWith :: "'a list \<Rightarrow> 'a list \<Rightarrow> bool" where
  "startsWith s [] = True"
| "startsWith [] (p # ps) = False"
| "startsWith (c # cs) (p # ps) = (c = p \<and> startsWith cs ps)"

fun includes_js :: "'a list \<Rightarrow> 'a list \<Rightarrow> bool" where
  "includes_js [] n = (n = [])"
| "includes_js (c # cs) n = (startsWith (c # cs) n \<or> includes_js cs n)"

text \<open>\<^verbatim>\<open>Array.prototype.findIndex\<close>: the index of the first element that satisfies
  the predicate, \<open>-1\<close> when there is none.\<close>

fun findIndex :: "('a \<Rightarrow> bool) \<Rightarrow> 'a list \<Rightarrow> int" where
  "findIndex p [] = - 1"
| "findIndex p (x # xs) =
     (if p x then 0 else (let i = findIndex p xs in if i < 0 then - 1 else i + 1))"

section \<open>Column mapper\<close>

subsection \<open>\<^verbatim>\<open>mapColumns\<close> of the React component\<close>

definition normalizeHeader :: "string \<Rightarrow> string" where
  "normalizeHeader h = (if h \<noteq> [] then toLowerCase (trim h) else [])"

datatype field = FName | FEmail | FInvoice | FDate | FAmount | FPaid

fun options :: "field \<Rightarrow> string list" where
  "options FName = [''client'', ''clientname'', ''name'', ''customer'']"
| "options FEmail = [''email'', ''e-mail'', ''mail'']"
| "options FInvoice =
     [''invoice'', ''invoice#'', ''invoicenumber'', ''ref'', ''facture'', ''facture#'']"
| "options FDate =
     [''date'', ''invoicedate'', ''datefacture'', ''facturedate'', ''date de facture'']"
| "options FAmount = [''amount'', ''montant'', ''total'', ''balance'']"
| "options FPaid = [''paid'', ''status'', ''etat'', ''paiement'']"

definition option_entries :: "field list" where
  "option_entries = [FName, FEmail, FInvoice, FDate, FAmount, FPaid]"

definition matchesAny :: "string list \<Rightarrow> string \<Rightarrow> bool" where
  "matchesAny names h = list_ex (\<lambda>n. includes_js h n) names"

definition mapColumns_step :: "string list \<Rightarrow> field \<Rightarrow> (field \<rightharpoonup> string) \<Rightarrow> (field \<rightharpoonup> string)" where
  "mapColumns_step headers fld m =
     (let idx = findIndex (matchesAny (options fld)) (map normalizeHeader headers)
      in if idx \<ge> 0 then m(fld \<mapsto> headers ! nat idx) else m)"

definition mapColumns :: "string list \<Rightarrow> (field \<rightharpoonup> string)" where
  "mapColumns headers = fold (mapColumns_step headers) option_entries Map.empty"

subsection \<open>\<^verbatim>\<open>findKey\<close> of the script\<close>

text \<open>The script lowers the headers without trimming them, walks the lowered headers in
  column order, and returns the first original key whose lowered form is the matching
  one; \<open>None\<close> is the script's \<^verbatim>\<open>null\<close>. The inner \<^verbatim>\<open>find\<close> yields
  \<^verbatim>\<open>undefined\<close> when nothing is found, written \<open>Some None\<close>.\<close>

fun findKey_loop :: "string list \<Rightarrow> string list \<Rightarrow> string list \<Rightarrow> string option option" where
  "findKey_loop keys0 [] cands = None"
| "findKey_loop keys0 (k # ks) cands =
     (if list_ex (\<lambda>candidate. includes_js k candidate) cands
      then Some (find (\<lambda>x. toLowerCase x = k) keys0)
      else findKey_loop keys0 ks cands)"

definition findKey :: "string list \<Rightarrow> string list \<Rightarrow> string option option" where
  "findKey keys0 cands = findKey_loop keys0 (map toLowerCase keys0) cands"

datatype app_field = AClient | AEmail | AInvoice | ADate | AAmount

fun app_candidates :: "app_field \<Rightarrow> string list" where
  "app_candidates AClient = [''client'', ''name'', ''customer'', ''societe'', ''client'']"
| "app_candidates AEmail = [''email'', ''mail'']"
| "app_candidates AInvoice = [''invoice'', ''facture'', ''ref'']"
| "app_candidates ADate = [''date'', ''invoicedate'', ''datefacture'', ''facture'']"
| "app_candidates AAmount = [''amount'', ''montant'', ''total'', ''balance'']"

definition app_map :: "string list \<Rightarrow> app_field \<Rightarrow> string option option" where
  "app_map keys0 f = findKey keys0 (app_candidates f)"


text \<open>The two spec-side predicates of the column mapper: a header text contains one of
  the candidate substrings, and an index is the first one in a list that satisfies a
  predicate.\<close>

definition contains_candidate :: "string list \<Rightarrow> string \<Rightarrow> bool" where
  "contains_candidate names h = (\<exists>n \<in> set names. \<exists>pre post. h = pre @ n @ post)"

definition first_match :: "('a \<Rightarrow> bool) \<Rightarrow> 'a list \<Rightarrow> nat \<Rightarrow> bool" where
  "first_match p xs i = (i < length xs \<and> p (xs ! i) \<and> (\<forall>j < i. \<not> p (xs ! j)))"

section \<open>Values, numbers, dates and the platform\<close>

text \<open>
  A JavaScript number is \<open>NaN\<close>, an infinity or a finite number. Finite numbers are
  idealised as reals: the rounding of double arithmetic is not modelled. A \<^verbatim>\<open>Date\<close>
  object is its time value, an integral number of milliseconds since 1970-01-01T00:00Z;
  \<open>None\<close> is the time value \<open>NaN\<close> of an \<^verbatim>\<open>Invalid Date\<close>. A cell of a decoded sheet
  is a string, a number or a date; \<^verbatim>\<open>undefined\<close> and \<^verbatim>\<open>null\<close> arise from
  missing properties.
\<close>

datatype jsnum = NaN | Infinity | NegInfinity | Num real

type_synonym jsdate = "int option"

datatype jsval = Undefined | Null | JStr string | JNum jsnum | JDate jsdate

datatype js_error = TypeError | RangeError

definition truthy :: "jsval \<Rightarrow> bool" where
  "truthy v = (case v of
       Undefined \<Rightarrow> False
     | Null \<Rightarrow> False
     | JStr s \<Rightarrow> s \<noteq> []
     | JNum n \<Rightarrow> n \<noteq> NaN \<and> n \<noteq> Num 0
     | JDate d \<Rightarrow> True)"

definition isNaN_num :: "jsnum \<Rightarrow> bool" where
  "isNaN_num n = (n = NaN)"

text \<open>The relational operator \<^verbatim>\<open>a > b\<close> on numbers: false when an operand is \<open>NaN\<close>.\<close>

fun js_gt :: "jsnum \<Rightarrow> jsnum \<Rightarrow> bool" where
  "js_gt NaN b = False"
| "js_gt a NaN = False"
| "js_gt Infinity b = (b \<noteq> Infinity)"
| "js_gt NegInfinity b = False"
| "js_gt (Num x) Infinity = False"
| "js_gt (Num x) NegInfinity = True"
| "js_gt (Num x) (Num y) = (x > y)"

text \<open>\<^verbatim>\<open>a ?? b\<close>: the right operand replaces \<^verbatim>\<open>undefined\<close> and \<^verbatim>\<open>null\<close> only.\<close>

definition nullish :: "jsval \<Rightarrow> jsval \<Rightarrow> jsval" where
  "nullish a b = (if a = Undefined \<or> a = Null then b else a)"

text \<open>
  What the code takes from the JavaScript run time and from its libraries is a
  parameter of the model: \<^verbatim>\<open>Number(s)\<close> on a string, \<^verbatim>\<open>Date.parse(s)\<close> (whose
  result for anything but the ISO format is implementation-defined), the string forms of
  numbers and dates, \<^verbatim>\<open>format(d, 'yyyy-MM-dd')\<close> of date-fns, \<^verbatim>\<open>toISOString\<close>, and
  the time zone. The zone is given by two functions: \<open>tz\<close> is the offset of local time
  from UTC, in milliseconds, that is in force at an instant (it changes with daylight
  saving, so that two dates of one zone may have different offsets), and
  \<open>utc_of_local\<close> is the instant of a local time, the \<open>UTC(t)\<close> of ECMAScript, which
  also decides for a local time that a change of offset skips or repeats. Every theorem
  holds for every platform.
\<close>

record platform =
  Number_of :: "string \<Rightarrow> jsnum"
  Date_parse :: "string \<Rightarrow> jsdate"
  num_toString :: "jsnum \<Rightarrow> string"
  date_toString :: "jsdate \<Rightarrow> string"
  date_format :: "int \<Rightarrow> string"
  date_toISOString :: "int \<Rightarrow> string"
  tz :: "int \<Rightarrow> int"
  utc_of_local :: "int \<Rightarrow> int"

text \<open>\<^verbatim>\<open>String(v)\<close>, and the method call \<^verbatim>\<open>v.toString()\<close>, which throws a
  \<^verbatim>\<open>TypeError\<close> on \<^verbatim>\<open>undefined\<close> and \<^verbatim>\<open>null\<close>.\<close>

definition ToString :: "platform \<Rightarrow> jsval \<Rightarrow> string" where
  "ToString P v = (case v of
       Undefined \<Rightarrow> ''undefined''
     | Null \<Rightarrow> ''null''
     | JStr s \<Rightarrow> s
     | JNum n \<Rightarrow> num_toString P n
     | JDate d \<Rightarrow> date_toString P d)"

definition toString_method :: "platform \<Rightarrow> jsval \<Rightarrow> js_error + string" where
  "toString_method P v =
     (if v = Undefined \<or> v = Null then Inl TypeError else Inr (ToString P v))"

definition msPerDay :: int where
  "msPerDay = 86400000"

text \<open>The local time of an instant, \<open>LocalTime(t)\<close> of ECMAScript: the instant moved by
  the offset in force at it.\<close>

definition local_time :: "platform \<Rightarrow> int \<Rightarrow> int" where
  "local_time P t = t + tz P t"

text \<open>\<^verbatim>\<open>new Date(x)\<close> for a number \<open>x\<close>: the time value is \<open>TimeClip x\<close>, which
  is \<open>NaN\<close> beyond 8.64e15 milliseconds and truncates towards zero.\<close>

definition trunc :: "real \<Rightarrow> int" where
  "trunc x = (if x \<ge> 0 then \<lfloor>x\<rfloor> else \<lceil>x\<rceil>)"

definition TimeClip :: "jsnum \<Rightarrow> jsdate" where
  "TimeClip n = (case n of
       Num x \<Rightarrow> if \<bar>x\<bar> > 8640000000000000 then None else Some (trunc x)
     | _ \<Rightarrow> None)"

text \<open>The proleptic Gregorian calendar of ECMAScript dates: the day number (days since
  1970-01-01) of a civil date, and the civil date of a day number. Months count from 1.\<close>

definition days_from_civil :: "int \<Rightarrow> int \<Rightarrow> int \<Rightarrow> int" where
  "days_from_civil y m d =
     (let y' = (if m \<le> 2 then y - 1 else y);
          era = y' div 400;
          yoe = y' - era * 400;
          doy = (153 * (m + (if m > 2 then - 3 else 9)) + 2) div 5 + d - 1;
          doe = yoe * 365 + yoe div 4 - yoe div 100 + doy
      in era * 146097 + doe - 719468)"

definition civil_from_days :: "int \<Rightarrow> int \<times> int \<times> int" where
  "civil_from_days z0 =
     (let z = z0 + 719468;
          era = z div 146097;
          doe = z - era * 146097;
          yoe = (doe - doe div 1460 + doe div 36524 - doe div 146096) div 365;
          doy = doe - (365 * yoe + yoe div 4 - yoe div 100);
          mp = (5 * doy + 2) div 153;
          d = doy - (153 * mp + 2) div 5 + 1;
          m = (if mp < 10 then mp + 3 else mp - 9);
          y = yoe + era * 400
      in (if m \<le> 2 then y + 1 else y, m, d))"

definition utc_date :: "int \<Rightarrow> int \<times> int \<times> int" where
  "utc_date t = civil_from_days (t div msPerDay)"

text \<open>\<^verbatim>\<open>new Date(year, month, day)\<close>: the instant of local midnight of the civil
  date, the month counted from 0 and carried into the year, the day carried into the
  month (\<open>MakeDay\<close>). Years from 0 to 99 mean 1900 to 1999.\<close>

definition MakeDay :: "int \<Rightarrow> int \<Rightarrow> int \<Rightarrow> int" where
  "MakeDay year month dt =
     days_from_civil (year + month div 12) (month mod 12 + 1) 1 + dt - 1"

definition new_Date_local :: "platform \<Rightarrow> int \<Rightarrow> int \<Rightarrow> int \<Rightarrow> jsdate" where
  "new_Date_local P year month dt =
     (let yr = (if 0 \<le> year \<and> year \<le> 99 then 1900 + year else year)
      in TimeClip (Num (of_int (utc_of_local P (MakeDay yr month dt * msPerDay)))))"

text \<open>\<^verbatim>\<open>new Date(v)\<close> with one argument: a date is copied, a string is parsed, anything
  else is converted to a number (\<^verbatim>\<open>undefined\<close> to \<open>NaN\<close>, \<^verbatim>\<open>null\<close> to 0).\<close>

definition new_Date :: "platform \<Rightarrow> jsval \<Rightarrow> jsdate" where
  "new_Date P v = (case v of
       JDate d \<Rightarrow> d
     | JStr s \<Rightarrow> Date_parse P s
     | JNum n \<Rightarrow> TimeClip n
     | Undefined \<Rightarrow> None
     | Null \<Rightarrow> Some 0)"

section \<open>The React component\<close>

subsection \<open>Date normalisation and classification in \<^verbatim>\<open>handleFile\<close>\<close>

text \<open>A decoded sheet row is a JavaScript object: its keys in \<^verbatim>\<open>Object.keys\<close> order
  with their cells. Reading a missing property gives \<^verbatim>\<open>undefined\<close>; a key that is
  \<^verbatim>\<open>undefined\<close> or \<^verbatim>\<open>null\<close> is read as the property of that name.\<close>

type_synonym sheet_row = "(string \<times> jsval) list"

definition prop_get :: "sheet_row \<Rightarrow> string \<Rightarrow> jsval" where
  "prop_get r k = (case map_of r k of None \<Rightarrow> Undefined | Some v \<Rightarrow> v)"

definition colKey :: "string option \<Rightarrow> string" where
  "colKey k = (case k of None \<Rightarrow> ''undefined'' | Some h \<Rightarrow> h)"

text \<open>Lines 88 to 105: the normalised date is \<^verbatim>\<open>null\<close> (\<open>None\<close>) or a
  \<^verbatim>\<open>Date\<close> object, which may be invalid. The serial-number branch is
  \<^verbatim>\<open>new Date((num - 25569) * 86400 * 1000)\<close>.\<close>

definition serial_to_ms :: "jsnum \<Rightarrow> jsnum" where
  "serial_to_ms num = (case num of
       Num x \<Rightarrow> Num ((x - 25569) * 86400 * 1000)
     | other \<Rightarrow> other)"

definition parsedDate_of :: "platform \<Rightarrow> jsval \<Rightarrow> js_error + jsdate option" where
  "parsedDate_of P rawDate =
     (if truthy rawDate then
        (case rawDate of
           JDate d \<Rightarrow> Inr (Some d)
         | _ \<Rightarrow>
            (case toString_method P rawDate of
               Inl e \<Rightarrow> Inl e
             | Inr s \<Rightarrow>
                (let num = Number_of P s in
                 if \<not> isNaN_num num then Inr (Some (TimeClip (serial_to_ms num)))
                 else (case Date_parse P s of
                         None \<Rightarrow> Inr None
                       | Some tryISO \<Rightarrow> Inr (Some (Some tryISO))))))
      else Inr None)"

text \<open>\<^verbatim>\<open>startOfDay\<close> of date-fns is \<^verbatim>\<open>date.setHours(0, 0, 0, 0)\<close> on a copy of the
  date: the local time of the date is cut down to the start of its day, and the time
  value of the result is the instant of that local time, clipped to the range of
  dates.\<close>

definition startOfDay :: "platform \<Rightarrow> int \<Rightarrow> jsdate" where
  "startOfDay P t =
     TimeClip (Num (of_int (utc_of_local P ((local_time P t div msPerDay) * msPerDay))))"

text \<open>\<^verbatim>\<open>getTimezoneOffsetInMilliseconds\<close> of date-fns: the time value of a date less
  the UTC time value that has the local calendar fields of the date, which is its
  local time. It is the offset in force at that date, negated.\<close>

definition getTimezoneOffsetInMilliseconds :: "platform \<Rightarrow> int \<Rightarrow> int" where
  "getTimezoneOffsetInMilliseconds P t = t - local_time P t"

text \<open>\<^verbatim>\<open>differenceInCalendarDays\<close> of date-fns: each date is moved to the start of
  its local day, the zone offset in force at that start is taken out of it, and the
  difference of the two is divided by the milliseconds of a day and rounded; \<open>NaN\<close>
  for an invalid date.\<close>

definition differenceInCalendarDays :: "platform \<Rightarrow> jsdate \<Rightarrow> jsdate \<Rightarrow> jsnum" where
  "differenceInCalendarDays P dateLeft dateRight =
     (case (dateLeft, dateRight) of
        (Some l, Some r) \<Rightarrow>
          (case (startOfDay P l, startOfDay P r) of
             (Some startOfDayLeft, Some startOfDayRight) \<Rightarrow>
               (let timestampLeft = startOfDayLeft
                      - getTimezoneOffsetInMilliseconds P startOfDayLeft;
                    timestampRight = startOfDayRight
                      - getTimezoneOffsetInMilliseconds P startOfDayRight
                in Num (of_int (round (of_int (timestampLeft - timestampRight)
                                        / of_int msPerDay :: real))))
           | _ \<Rightarrow> NaN)
      | _ \<Rightarrow> NaN)"

text \<open>Line 117, the paid test \<^verbatim>\<open>paid && paid.toString().toLowerCase().startsWith('y')\<close>.\<close>

definition isAffirmative :: "platform \<Rightarrow> jsval \<Rightarrow> js_error + bool" where
  "isAffirmative P paid =
     (if truthy paid then
        (case toString_method P paid of
           Inl e \<Rightarrow> Inl e
         | Inr s \<Rightarrow> Inr (startsWith (toLowerCase s) ''y''))
      else Inr False)"

text \<open>Lines 112 to 118: the age in days and the overdue flag.\<close>

definition classify :: "platform \<Rightarrow> int \<Rightarrow> jsdate option \<Rightarrow> jsval \<Rightarrow> js_error + (jsnum option \<times> bool)" where
  "classify P today parsedDate paid =
     (case parsedDate of
        None \<Rightarrow> Inr (None, False)
      | Some d \<Rightarrow>
          (let days = differenceInCalendarDays P (Some today) d in
           if js_gt days (Num 30) then
             (case isAffirmative P paid of
                Inl e \<Rightarrow> Inl e
              | Inr a \<Rightarrow> Inr (Some days, \<not> a))
           else Inr (Some days, False)))"

text \<open>\<^verbatim>\<open>format(parsedDate, 'yyyy-MM-dd')\<close> of date-fns throws a \<^verbatim>\<open>RangeError\<close> on an
  invalid date.\<close>

definition format_ymd :: "platform \<Rightarrow> jsdate \<Rightarrow> js_error + string" where
  "format_ymd P d = (case d of None \<Rightarrow> Inl RangeError | Some t \<Rightarrow> Inr (date_format P t))"

record row =
  row_id :: nat
  clientName :: jsval
  email :: jsval
  invoiceNumber :: jsval
  invoiceDate :: string
  rawInvoiceDate :: "jsdate option"
  amount :: jsval
  paid :: jsval
  days :: "jsnum option"
  overdue :: bool
  excluded :: bool

text \<open>Line 87, the raw date cell of a sheet row.\<close>

definition rawDate_of :: "(field \<rightharpoonup> string) \<Rightarrow> sheet_row \<Rightarrow> jsval" where
  "rawDate_of colMap r =
     nullish (nullish (prop_get r (colKey (colMap FDate))) (prop_get r ''InvoiceDate''))
       (prop_get r ''Date'')"

definition handleFile_row :: "platform \<Rightarrow> int \<Rightarrow> (field \<rightharpoonup> string) \<Rightarrow> sheet_row \<Rightarrow> nat \<Rightarrow> js_error + row" where
  "handleFile_row P today colMap r i =
     (let rawDate = rawDate_of colMap r
      in case parsedDate_of P rawDate of
           Inl e \<Rightarrow> Inl e
         | Inr parsedDate \<Rightarrow>
            (let amountCell = nullish (nullish (nullish (prop_get r (colKey (colMap FAmount)))
                                (prop_get r ''Amount'')) (prop_get r ''Montant'')) (JStr []);
                 invoiceNumber' = nullish (nullish (nullish (prop_get r (colKey (colMap FInvoice)))
                                (prop_get r ''Invoice'')) (prop_get r ''Facture'')) (JStr []);
                 clientName' = nullish (nullish (prop_get r (colKey (colMap FName)))
                                (prop_get r ''Client'')) (JStr []);
                 email' = nullish (nullish (prop_get r (colKey (colMap FEmail)))
                                (prop_get r ''Email'')) (JStr []);
                 paid' = nullish (prop_get r (colKey (colMap FPaid))) (JStr [])
             in case classify P today parsedDate paid' of
                  Inl e \<Rightarrow> Inl e
                | Inr (days', overdue') \<Rightarrow>
                   (case (case parsedDate of None \<Rightarrow> Inr [] | Some d \<Rightarrow> format_ymd P d) of
                      Inl e \<Rightarrow> Inl e
                    | Inr shown \<Rightarrow>
                       Inr \<lparr> row_id = i + 1, clientName = clientName', email = email',
                             invoiceNumber = invoiceNumber', invoiceDate = shown,
                             rawInvoiceDate = parsedDate, amount = amountCell, paid = paid',
                             days = days', overdue = overdue', excluded = False \<rparr>)))"

text \<open>The rows of the sheet are mapped in order; \<open>clock i\<close> is the instant
  \<^verbatim>\<open>new Date()\<close> gives while row \<open>i\<close> is mapped. An exception leaves the
  \<^verbatim>\<open>map\<close> and is caught by \<^verbatim>\<open>handleFile\<close>, which then keeps the old rows, as
  it does for an empty sheet.\<close>

fun rows_from :: "platform \<Rightarrow> (nat \<Rightarrow> int) \<Rightarrow> (field \<rightharpoonup> string) \<Rightarrow> sheet_row list \<Rightarrow> nat \<Rightarrow> js_error + row list" where
  "rows_from P clock colMap [] i = Inr []"
| "rows_from P clock colMap (r # rs) i =
     (case handleFile_row P (clock i) colMap r i of
        Inl e \<Rightarrow> Inl e
      | Inr x \<Rightarrow>
         (case rows_from P clock colMap rs (Suc i) of
            Inl e \<Rightarrow> Inl e
          | Inr xs \<Rightarrow> Inr (x # xs)))"

definition handleFile :: "platform \<Rightarrow> (nat \<Rightarrow> int) \<Rightarrow> row list \<Rightarrow> sheet_row list \<Rightarrow> row list" where
  "handleFile P clock rows json =
     (case json of
        [] \<Rightarrow> rows
      | first # _ \<Rightarrow>
         (case rows_from P clock (mapColumns (map fst first)) json 0 of
            Inl e \<Rightarrow> rows
          | Inr parsed \<Rightarrow> parsed))"

subsection \<open>Selection and sending\<close>

definition toggleExclude :: "row list \<Rightarrow> nat \<Rightarrow> row list" where
  "toggleExclude r i = map (\<lambda>x. if row_id x = i then x\<lparr>excluded := \<not> excluded x\<rparr> else x) r"

definition selectAllOverdue :: "row list \<Rightarrow> bool \<Rightarrow> row list" where
  "selectAllOverdue r exclude = map (\<lambda>x. if overdue x then x\<lparr>excluded := exclude\<rparr> else x) r"

definition toSend :: "row list \<Rightarrow> row list" where
  "toSend rows = filter (\<lambda>r. overdue r \<and> \<not> excluded r \<and> truthy (email r)) rows"

text \<open>\<^verbatim>\<open>String.prototype.replace\<close> with a string pattern: the first occurrence of the
  pattern is replaced, and in the replacement text \<^verbatim>\<open>$$\<close> stands for a dollar sign,
  \<^verbatim>\<open>$&\<close> for the matched text, a dollar sign with a backquote for the text before the
  match and a dollar sign with a quote for the text after it; any other dollar sign is
  literal, as there are no capture groups.\<close>

fun split_first :: "string \<Rightarrow> string \<Rightarrow> (string \<times> string) option" where
  "split_first [] pat = (if pat = [] then Some ([], []) else None)"
| "split_first (c # cs) pat =
     (if startsWith (c # cs) pat then Some ([], drop (length pat) (c # cs))
      else (case split_first cs pat of
              None \<Rightarrow> None
            | Some (pre, post) \<Rightarrow> Some (c # pre, post)))"

fun getSubstitution :: "string \<Rightarrow> string \<Rightarrow> string \<Rightarrow> string \<Rightarrow> string" where
  "getSubstitution matched pre post [] = []"
| "getSubstitution matched pre post [c] = [c]"
| "getSubstitution matched pre post (c # d # rest) =
     (if c = CHR ''$'' \<and> d = CHR ''$'' then CHR ''$'' # getSubstitution matched pre post rest
      else if c = CHR ''$'' \<and> d = CHR ''&'' then matched @ getSubstitution matched pre post rest
      else if c = CHR ''$'' \<and> d = CHR 0x60 then pre @ getSubstitution matched pre post rest
      else if c = CHR ''$'' \<and> d = CHR 0x27 then post @ getSubstitution matched pre post rest
      else c # getSubstitution matched pre post (d # rest))"

definition replace_js :: "string \<Rightarrow> string \<Rightarrow> string \<Rightarrow> string" where
  "replace_js s pat replacement =
     (case split_first s pat of
        None \<Rightarrow> s
      | Some (pre, post) \<Rightarrow> pre @ getSubstitution pat pre post replacement @ post)"

definition days_val :: "jsnum option \<Rightarrow> jsval" where
  "days_val d = (case d of None \<Rightarrow> Null | Some n \<Rightarrow> JNum n)"

definition render :: "platform \<Rightarrow> string \<Rightarrow> row \<Rightarrow> string" where
  "render P messageTemplate x =
     replace_js (replace_js (replace_js (replace_js messageTemplate
         ''{{name}}'' (ToString P (clientName x)))
         ''{{invoice}}'' (ToString P (invoiceNumber x)))
         ''{{amount}}'' (ToString P (amount x)))
         ''{{days}}'' (ToString P (days_val (days x)))"

record payload_item =
  p_email :: jsval
  p_name :: jsval
  p_invoice :: jsval
  p_amount :: jsval
  p_days :: jsval
  p_message :: string

definition payload :: "platform \<Rightarrow> string \<Rightarrow> row list \<Rightarrow> payload_item list" where
  "payload P messageTemplate rows =
     map (\<lambda>x. \<lparr> p_email = email x, p_name = clientName x, p_invoice = invoiceNumber x,
                p_amount = amount x, p_days = days_val (days x),
                p_message = render P messageTemplate x \<rparr>) (toSend rows)"

section \<open>The script \<^verbatim>\<open>app.js\<close>\<close>

subsection \<open>\<^verbatim>\<open>parseDateMaybe\<close>\<close>

text \<open>The pattern \<^verbatim>\<open>/(\d{1,2})[\/\-](\d{1,2})[\/\-](\d{2,4})/\<close>, matched at the
  leftmost position where it fits. Each group takes as many digits as it may; a shorter
  first or second group could only be followed by a digit, never by a separator, so
  there is nothing to backtrack into.\<close>

definition isDigit :: "char \<Rightarrow> bool" where
  "isDigit c = (let n = (of_char c :: nat) in 48 \<le> n \<and> n \<le> 57)"

definition isSep :: "char \<Rightarrow> bool" where
  "isSep c = (c = CHR ''/'' \<or> c = CHR ''-'')"

definition digits_upto :: "nat \<Rightarrow> string \<Rightarrow> string" where
  "digits_upto n s = takeWhile isDigit (take n s)"

definition match_here :: "string \<Rightarrow> (string \<times> string \<times> string) option" where
  "match_here s =
     (let g1 = digits_upto 2 s; s1 = drop (length g1) s in
      if g1 = [] then None
      else (case s1 of
              [] \<Rightarrow> None
            | c1 # s2 \<Rightarrow>
               if \<not> isSep c1 then None
               else (let g2 = digits_upto 2 s2; s3 = drop (length g2) s2 in
                     if g2 = [] then None
                     else (case s3 of
                             [] \<Rightarrow> None
                           | c2 # s4 \<Rightarrow>
                              if \<not> isSep c2 then None
                              else (let g3 = digits_upto 4 s4 in
                                    if length g3 < 2 then None else Some (g1, g2, g3))))))"

fun regex_dmy :: "string \<Rightarrow> (string \<times> string \<times> string) option" where
  "regex_dmy [] = None"
| "regex_dmy (c # cs) =
     (case match_here (c # cs) of Some m \<Rightarrow> Some m | None \<Rightarrow> regex_dmy cs)"

text \<open>\<^verbatim>\<open>parseInt(g, 10)\<close> on a group of decimal digits.\<close>

definition parseInt10 :: "string \<Rightarrow> int" where
  "parseInt10 g = foldl (\<lambda>n c. n * 10 + (int (of_char c) - 48)) 0 g"

definition parseDateMaybe :: "platform \<Rightarrow> jsval \<Rightarrow> js_error + jsdate option" where
  "parseDateMaybe P val =
     (if \<not> truthy val then Inr None
      else if (case val of JDate (Some t) \<Rightarrow> True | _ \<Rightarrow> False) then
        Inr (Some (case val of JDate d \<Rightarrow> d | _ \<Rightarrow> None))
      else
        (let d = new_Date P val in
         if d \<noteq> None then Inr (Some d)
         else (case toString_method P val of
                 Inl e \<Rightarrow> Inl e
               | Inr s \<Rightarrow>
                  (case regex_dmy s of
                     Some (p1, p2, p3) \<Rightarrow>
                       (let day = parseInt10 p1; month = parseInt10 p2 - 1; year = parseInt10 p3
                        in Inr (Some (new_Date_local P (if year < 100 then 2000 + year else year)
                                        month day)))
                   | None \<Rightarrow> Inr None))))"

subsection \<open>The \<^verbatim>\<open>parseBtn\<close> listener\<close>

record app_row =
  a_id :: nat
  a_client :: jsval
  a_email :: jsval
  a_invoice :: jsval
  a_invoiceDate :: jsval
  a_amount :: jsval
  a_days :: "jsnum option"
  a_overdue :: bool
  a_excluded :: bool

text \<open>\<^verbatim>\<open>Number(...) || 30\<close>: the limit is 30 when the field does not hold a number
  other than zero.\<close>

definition daysLimit_of :: "platform \<Rightarrow> string \<Rightarrow> jsnum" where
  "daysLimit_of P v = (let n = Number_of P v in if truthy (JNum n) then n else Num 30)"

text \<open>A key that \<^verbatim>\<open>findKey\<close> did not find is \<^verbatim>\<open>null\<close>.\<close>

definition appKey :: "string option option \<Rightarrow> string" where
  "appKey k = (case k of None \<Rightarrow> ''null'' | Some None \<Rightarrow> ''undefined'' | Some (Some h) \<Rightarrow> h)"

text \<open>Line 76, \<^verbatim>\<open>dt ? Math.floor((today - dt)/(1000*60*60*24)) : null\<close>, and line 77,
  \<^verbatim>\<open>days !== null && days > daysLimit\<close>.\<close>

definition app_days :: "int \<Rightarrow> jsdate option \<Rightarrow> jsnum option" where
  "app_days today dt = (case dt of
       None \<Rightarrow> None
     | Some None \<Rightarrow> Some NaN
     | Some (Some t) \<Rightarrow>
         Some (Num (of_int \<lfloor>of_int (today - t) / of_int (1000 * 60 * 60 * 24) :: real\<rfloor>)))"

definition app_overdue :: "jsnum option \<Rightarrow> jsnum \<Rightarrow> bool" where
  "app_overdue d daysLimit = (case d of None \<Rightarrow> False | Some n \<Rightarrow> js_gt n daysLimit)"

text \<open>Line 73, the raw date cell of a sheet row.\<close>

definition app_rawDate_of :: "(app_field \<Rightarrow> string option option) \<Rightarrow> sheet_row \<Rightarrow> jsval" where
  "app_rawDate_of amap r =
     nullish (nullish (prop_get r (appKey (amap ADate))) (prop_get r ''Date'')) (JStr [])"

definition app_row_of :: "platform \<Rightarrow> jsnum \<Rightarrow> int \<Rightarrow> (app_field \<Rightarrow> string option option) \<Rightarrow> sheet_row \<Rightarrow> nat \<Rightarrow> js_error + app_row" where
  "app_row_of P daysLimit today amap r i =
     (let rawDate = app_rawDate_of amap r
      in case parseDateMaybe P rawDate of
           Inl e \<Rightarrow> Inl e
         | Inr dt \<Rightarrow>
            (let days' = app_days today dt;
                 overdue' = app_overdue days' daysLimit
             in case (case dt of
                        None \<Rightarrow> Inr (if truthy rawDate then rawDate else JStr [])
                      | Some None \<Rightarrow> Inl RangeError
                      | Some (Some t) \<Rightarrow> Inr (JStr (take 10 (date_toISOString P t)))) of
                  Inl e \<Rightarrow> Inl e
                | Inr shown \<Rightarrow>
                   Inr \<lparr> a_id = i + 1,
                         a_client = nullish (nullish (prop_get r (appKey (amap AClient)))
                                      (prop_get r ''Client'')) (JStr []),
                         a_email = nullish (nullish (prop_get r (appKey (amap AEmail)))
                                      (prop_get r ''Email'')) (JStr []),
                         a_invoice = nullish (nullish (prop_get r (appKey (amap AInvoice)))
                                      (prop_get r ''Invoice'')) (JStr []),
                         a_invoiceDate = shown,
                         a_amount = nullish (nullish (prop_get r (appKey (amap AAmount)))
                                      (prop_get r ''Amount'')) (JStr []),
                         a_days = days', a_overdue = overdue', a_excluded = False \<rparr>))"

fun app_rows_from :: "platform \<Rightarrow> jsnum \<Rightarrow> (nat \<Rightarrow> int) \<Rightarrow> (app_field \<Rightarrow> string option option) \<Rightarrow> sheet_row list \<Rightarrow> nat \<Rightarrow> js_error + app_row list" where
  "app_rows_from P daysLimit clock amap [] i = Inr []"
| "app_rows_from P daysLimit clock amap (r # rs) i =
     (case app_row_of P daysLimit (clock i) amap r i of
        Inl e \<Rightarrow> Inl e
      | Inr x \<Rightarrow>
         (case app_rows_from P daysLimit clock amap rs (Suc i) of
            Inl e \<Rightarrow> Inl e
          | Inr xs \<Rightarrow> Inr (x # xs)))"

text \<open>The listener replaces \<^verbatim>\<open>parsedRows\<close> unless the sheet is empty or a row
  throws.\<close>

definition parseClick :: "platform \<Rightarrow> (nat \<Rightarrow> int) \<Rightarrow> string \<Rightarrow> app_row list \<Rightarrow> sheet_row list \<Rightarrow> app_row list" where
  "parseClick P clock limitText parsedRows json =
     (case json of
        [] \<Rightarrow> parsedRows
      | first # _ \<Rightarrow>
         (case app_rows_from P (daysLimit_of P limitText) clock (app_map (map fst first)) json 0 of
            Inl e \<Rightarrow> parsedRows
          | Inr rows \<Rightarrow> rows))"

subsection \<open>Exclusion and sending\<close>

text \<open>The \<^verbatim>\<open>change\<close> listener of the table: \<open>cb\<close> is the check box the event came
  from, if any, as the number read from its \<^verbatim>\<open>data-id\<close> and its checked state. The
  first row with that id gets the state of the box.\<close>

fun set_found_excluded :: "app_row list \<Rightarrow> jsnum \<Rightarrow> bool \<Rightarrow> app_row list" where
  "set_found_excluded [] i checked = []"
| "set_found_excluded (x # xs) i checked =
     (if Num (of_nat (a_id x)) = i then x\<lparr>a_excluded := checked\<rparr> # xs
      else x # set_found_excluded xs i checked)"

definition onExcludedChange :: "app_row list \<Rightarrow> (jsnum \<times> bool) option \<Rightarrow> app_row list" where
  "onExcludedChange parsedRows cb =
     (case cb of
        None \<Rightarrow> parsedRows
      | Some (i, checked) \<Rightarrow> set_found_excluded parsedRows i checked)"

definition app_toSend :: "app_row list \<Rightarrow> app_row list" where
  "app_toSend parsedRows =
     filter (\<lambda>r. a_overdue r \<and> \<not> a_excluded r \<and> truthy (a_email r)) parsedRows"

section \<open>A reference platform\<close>

text \<open>A platform for the worked examples, in UTC. \<^verbatim>\<open>Number\<close> reads unsigned decimal
  integers (and the empty text as 0), whole numbers are printed in decimal,
  \<^verbatim>\<open>Date.parse\<close> reads the date-only ISO form \<^verbatim>\<open>YYYY-MM-DD\<close>, and dates from year 0
  to year 9999 are printed as ECMAScript prints them. The examples stay within these
  inputs.\<close>

definition digit_char :: "int \<Rightarrow> char" where
  "digit_char n = ''0123456789'' ! nat n"

function show_int :: "int \<Rightarrow> string" where
  "show_int n =
     (if n < 10 then [digit_char n] else show_int (n div 10) @ [digit_char (n mod 10)])"
  by pat_completeness auto
termination
  by (relation "measure nat") auto

declare show_int.simps [simp del]

definition pad :: "nat \<Rightarrow> int \<Rightarrow> string" where
  "pad w n = replicate (w - length (show_int n)) (CHR ''0'') @ show_int n"

definition ref_Number :: "string \<Rightarrow> jsnum" where
  "ref_Number s =
     (let t = trim s in
      if t = [] then Num 0
      else if list_all isDigit t then Num (of_int (parseInt10 t))
      else NaN)"

definition ref_num_toString :: "jsnum \<Rightarrow> string" where
  "ref_num_toString n = (case n of
       NaN \<Rightarrow> ''NaN''
     | Infinity \<Rightarrow> ''Infinity''
     | NegInfinity \<Rightarrow> ''-Infinity''
     | Num x \<Rightarrow> (if x < 0 then ''-'' @ show_int \<lfloor>- x\<rfloor> else show_int \<lfloor>x\<rfloor>))"

definition ref_Date_parse :: "string \<Rightarrow> jsdate" where
  "ref_Date_parse s =
     (if length s = 10 \<and> list_all isDigit (take 4 s) \<and> s ! 4 = CHR ''-''
         \<and> list_all isDigit (take 2 (drop 5 s)) \<and> s ! 7 = CHR ''-''
         \<and> list_all isDigit (drop 8 s)
      then (let y = parseInt10 (take 4 s); m = parseInt10 (take 2 (drop 5 s));
                d = parseInt10 (drop 8 s)
            in if civil_from_days (days_from_civil y m d) = (y, m, d)
               then Some (days_from_civil y m d * msPerDay) else None)
      else None)"

definition ref_time :: "int \<Rightarrow> string" where
  "ref_time t =
     (let ms = t mod msPerDay
      in pad 2 (ms div 3600000) @ '':'' @ pad 2 (ms div 60000 mod 60) @ '':''
         @ pad 2 (ms div 1000 mod 60))"

definition ref_toISOString :: "int \<Rightarrow> string" where
  "ref_toISOString t =
     (case utc_date t of
        (y, m, d) \<Rightarrow>
          pad 4 y @ ''-'' @ pad 2 m @ ''-'' @ pad 2 d @ ''T'' @ ref_time t @ ''.''
          @ pad 3 (t mod 1000) @ ''Z'')"

definition ref_date_toString :: "jsdate \<Rightarrow> string" where
  "ref_date_toString dt =
     (case dt of
        None \<Rightarrow> ''Invalid Date''
      | Some t \<Rightarrow>
         (case utc_date t of
            (y, m, d) \<Rightarrow>
              [''Sun'', ''Mon'', ''Tue'', ''Wed'', ''Thu'', ''Fri'', ''Sat'']
                ! nat ((t div msPerDay + 4) mod 7) @ '' ''
              @ [''Jan'', ''Feb'', ''Mar'', ''Apr'', ''May'', ''Jun'', ''Jul'', ''Aug'', ''Sep'',
                 ''Oct'', ''Nov'', ''Dec''] ! nat (m - 1) @ '' ''
              @ pad 2 d @ '' '' @ pad 4 y @ '' '' @ ref_time t
              @ '' GMT+0000 (Coordinated Universal Time)''))"

definition ref_platform :: platform where
  "ref_platform = \<lparr> Number_of = ref_Number, Date_parse = ref_Date_parse,
     num_toString = ref_num_toString, date_toString = ref_date_toString,
     date_format = (\<lambda>t. take 10 (ref_toISOString t)),
     date_toISOString = ref_toISOString, tz = (\<lambda>t. 0), utc_of_local = (\<lambda>t. t) \<rparr>"

text \<open>The same platform in a zone with daylight saving, the Eastern time of the United
  States as it was in 2021: five hours behind UTC, and four hours behind from
  2021-03-14T07:00Z to 2021-11-07T06:00Z. A local time that the change in March skips
  and a local time that the change in November repeats are read with the offset before
  the change, as ECMAScript has it. Dates are printed in local time.\<close>

definition eastern_tz :: "int \<Rightarrow> int" where
  "eastern_tz t = (if 1615705200000 \<le> t \<and> t < 1636264800000 then - 14400000 else - 18000000)"

definition eastern_utc_of_local :: "int \<Rightarrow> int" where
  "eastern_utc_of_local t =
     (if 1615690800000 \<le> t \<and> t < 1636250400000 then t + 14400000 else t + 18000000)"

definition eastern_date_toString :: "jsdate \<Rightarrow> string" where
  "eastern_date_toString dt =
     (case dt of
        None \<Rightarrow> ''Invalid Date''
      | Some t \<Rightarrow>
          take 25 (ref_date_toString (Some (t + eastern_tz t)))
          @ (if eastern_tz t = - 14400000 then ''GMT-0400 (Eastern Daylight Time)''
             else ''GMT-0500 (Eastern Standard Time)''))"

definition eastern_platform :: platform where
  "eastern_platform = \<lparr> Number_of = ref_Number, Date_parse = ref_Date_parse,
     num_toString = ref_num_toString, date_toString = eastern_date_toString,
     date_format = (\<lambda>t. take 10 (ref_toISOString (t + eastern_tz t))),
     date_toISOString = ref_toISOString, tz = eastern_tz,
     utc_of_local = eastern_utc_of_local \<rparr>"

section \<open>Notions of the specification\<close>

text \<open>The calendar-day difference of two instants in a zone whose local time is
  \<open>z t\<close> milliseconds ahead of UTC at the instant \<open>t\<close>: the difference of the day
  numbers of their local dates, each date taken with the offset in force at it. UTC is
  the zone whose offset is always 0.\<close>

definition calendar_day_diff :: "(int \<Rightarrow> int) \<Rightarrow> int \<Rightarrow> int \<Rightarrow> int" where
  "calendar_day_diff z today d = (today + z today) div msPerDay - (d + z d) div msPerDay"

text \<open>The start of the local day of an instant is regular when it is a date within
  the range of dates whose local time is less than six hours from 00:00 of that day.
  It is 00:00 itself unless a change of the zone offset skips the midnight of that
  day.\<close>

definition regular_day_start :: "platform \<Rightarrow> int \<Rightarrow> bool" where
  "regular_day_start P t =
     (case startOfDay P t of
        None \<Rightarrow> False
      | Some s \<Rightarrow> 4 * \<bar>local_time P s - (local_time P t div msPerDay) * msPerDay\<bar> < msPerDay)"

text \<open>The day on which a spreadsheet serial number falls: serial 0 is 1899-12-30.\<close>

definition serial_day :: "int \<Rightarrow> int" where
  "serial_day n = days_from_civil 1899 12 30 + n"

text \<open>A text occurs in another one, and the place of its first occurrence.\<close>

definition occurs_in :: "string \<Rightarrow> string \<Rightarrow> bool" where
  "occurs_in pat s = (\<exists>pre post. s = pre @ pat @ post)"

definition first_occurrence :: "string \<Rightarrow> string \<Rightarrow> string \<Rightarrow> string \<Rightarrow> bool" where
  "first_occurrence s pat pre post =
     (s = pre @ pat @ post \<and> (\<forall>pre' post'. s = pre' @ pat @ post' \<longrightarrow> length pre \<le> length pre'))"

text \<open>One step of the rendering as the specification words it: the text is unchanged
  when the placeholder does not occur, and otherwise its first occurrence, and nothing
  else, is replaced by the inserted text.\<close>

definition replaces_first :: "string \<Rightarrow> string \<Rightarrow> string \<Rightarrow> string \<Rightarrow> bool" where
  "replaces_first pat inserted s s' =
     (if occurs_in pat s
      then (\<exists>pre post. first_occurrence s pat pre post \<and> s' = pre @ inserted @ post)
      else s' = s)"

text \<open>Every syntactically valid e-mail address holds an at sign.\<close>

definition has_at_sign :: "jsval \<Rightarrow> bool" where
  "has_at_sign v = (case v of JStr s \<Rightarrow> CHR ''@'' \<in> set s | _ \<Rightarrow> False)"

section \<open>Example data\<close>

definition example_headers :: "string list" where
  "example_headers = [''Invoice Date'', ''Client Name'', ''E-mail'']"

definition example_row :: row where
  "example_row = \<lparr> row_id = 1, clientName = JStr ''Ann'', email = JStr ''ann@example.com'',
     invoiceNumber = JStr ''F-1'', invoiceDate = ''2021-01-01'',
     rawInvoiceDate = Some (Some 1609459200000), amount = JStr ''120'', paid = JStr [],
     days = Some (Num 45), overdue = True, excluded = False \<rparr>"

definition example_app_row :: app_row where
  "example_app_row = \<lparr> a_id = 1, a_client = JStr ''Ann'', a_email = JStr ''ann@example.com'',
     a_invoice = JStr ''F-1'', a_invoiceDate = JStr ''2021-01-01'', a_amount = JStr ''120'',
     a_days = Some (Num 45), a_overdue = True, a_excluded = False \<rparr>"

text \<open>A sheet row dated 2021-01-01 that is marked as paid.\<close>

definition example_sheet_row :: sheet_row where
  "example_sheet_row = [(''Date'', JDate (Some 1609459200000)), (''Client'', JStr ''Ann''),
     (''Email'', JStr ''ann@example.com''), (''Invoice'', JStr ''F-1''),
     (''Amount'', JStr ''120''), (''Paid'', JStr ''yes'')]"

text \<open>2021-02-15T00:00Z, 45 days after 2021-01-01.\<close>

definition example_today :: int where
  "example_today = 1613347200000"

text \<open>The same rows with an address that holds no at sign.\<close>

definition example_row_no_at :: row where
  "example_row_no_at = example_row\<lparr>row_id := 2, email := JStr ''ann.example.com''\<rparr>"

definition example_app_row_no_at :: app_row where
  "example_app_row_no_at = example_app_row\<lparr>a_id := 2, a_email := JStr ''ann.example.com''\<rparr>"

text \<open>A row whose amount text holds two dollar signs, and a row whose client name is
  the text of another placeholder.\<close>

definition example_row_dollars :: row where
  "example_row_dollars = example_row\<lparr>amount := JStr ''$$120''\<rparr>"

definition example_row_braces :: row where
  "example_row_braces = example_row\<lparr>clientName := JStr ''{{invoice}}''\<rparr>"

text \<open>A sheet row whose date cell holds no date, and the record the React component
  makes of it.\<close>

definition example_sheet_row_undated :: sheet_row where
  "example_sheet_row_undated = [(''Date'', JStr ''n/a''), (''Client'', JStr ''Ann''),
     (''Email'', JStr ''ann@example.com''), (''Invoice'', JStr ''F-1''),
     (''Amount'', JStr ''120''), (''Paid'', JStr [])]"

definition example_row_undated :: row where
  "example_row_undated = example_row\<lparr>invoiceDate := [], rawInvoiceDate := None, days := None,
     overdue := False\<rparr>"

definition example_app_row_undated :: app_row where
  "example_app_row_undated = example_app_row\<lparr>a_invoiceDate := JStr ''n/a'', a_days := None,
     a_overdue := False\<rparr>"

text \<open>The record the React component makes of the paid sheet row on
  \<open>example_today\<close>.\<close>

definition example_row_paid :: row where
  "example_row_paid = example_row\<lparr>paid := JStr ''yes'', overdue := False\<rparr>"

text \<open>A sheet dated in Eastern time: the invoice date is 2020-12-31 at 23:30 local time,
  which is 2021-01-01T04:30Z, and the row is read on 2021-07-01 at 00:30 local time,
  which is 2021-07-01T04:30Z, with the records that the React component and the script
  make of it.\<close>

definition example_sheet_row_eastern :: sheet_row where
  "example_sheet_row_eastern = [(''Date'', JDate (Some 1609475400000)), (''Client'', JStr ''Ann''),
     (''Email'', JStr ''ann@example.com''), (''Invoice'', JStr ''F-1''),
     (''Amount'', JStr ''120''), (''Paid'', JStr ''yes'')]"

definition example_eastern_today :: int where
  "example_eastern_today = 1625113800000"

definition example_row_eastern :: row where
  "example_row_eastern = example_row\<lparr>invoiceDate := ''2020-12-31'',
     rawInvoiceDate := Some (Some 1609475400000), paid := JStr ''yes'', days := Some (Num 182),
     overdue := False\<rparr>"

definition example_app_row_eastern :: app_row where
  "example_app_row_eastern = example_app_row\<lparr>a_days := Some (Num 181)\<rparr>"

text \<open>A sheet row whose date cell is the number 1609459200000, the Unix time of
  2021-01-01 in milliseconds, and a sheet that holds a dated row before it.\<close>

definition example_sheet_row_timestamp :: sheet_row where
  "example_sheet_row_timestamp = [(''Date'', JNum (Num 1609459200000)), (''Client'', JStr ''Bob''),
     (''Email'', JStr ''bob@example.com''), (''Invoice'', JStr ''F-2''),
     (''Amount'', JStr ''80''), (''Paid'', JStr [])]"

definition example_sheet_timestamp :: "sheet_row list" where
  "example_sheet_timestamp = [example_sheet_row, example_sheet_row_timestamp]"

definition example_app_row_timestamp :: app_row where
  "example_app_row_timestamp = \<lparr> a_id = 2, a_client = JStr ''Bob'',
     a_email = JStr ''bob@example.com'', a_invoice = JStr ''F-2'',
     a_invoiceDate = JStr ''2021-01-01'', a_amount = JStr ''80'',
     a_days = Some (Num 45), a_overdue = True, a_excluded = False \<rparr>"

section \<open>Column mapper: the first matching header\<close>

lemma startsWith_iff: "startsWith s p \<longleftrightarrow> (\<exists>t. s = p @ t)"
  by (induction s p rule: startsWith.induct) auto

lemma includes_iff: "includes_js s n \<longleftrightarrow> (\<exists>pre post. s = pre @ n @ post)"
proof (induction s)
  case Nil
  then show ?case by auto
next
  case (Cons c cs)
  show ?case
  proof
    assume "includes_js (c # cs) n"
    then consider "startsWith (c # cs) n" | "includes_js cs n" by auto
    then show "\<exists>pre post. c # cs = pre @ n @ post"
    proof cases
      case 1
      then obtain t where "c # cs = n @ t" by (auto simp: startsWith_iff)
      then have "c # cs = [] @ n @ t" by simp
      then show ?thesis by blast
    next
      case 2
      then obtain pre post where "cs = pre @ n @ post" using Cons.IH by auto
      then have "c # cs = (c # pre) @ n @ post" by simp
      then show ?thesis by blast
    qed
  next
    assume "\<exists>pre post. c # cs = pre @ n @ post"
    then obtain pre post where e: "c # cs = pre @ n @ post" by auto
    show "includes_js (c # cs) n"
    proof (cases pre)
      case Nil
      then have "startsWith (c # cs) n" using e by (auto simp: startsWith_iff)
      then show ?thesis by simp
    next
      case (Cons a pre')
      then have "cs = pre' @ n @ post" using e by simp
      then have "includes_js cs n" using Cons.IH by blast
      then show ?thesis by simp
    qed
  qed
qed

lemma findIndex_ge: "findIndex p xs \<ge> - 1"
  by (induction xs) (auto simp: Let_def)

lemma findIndex_none: "findIndex p xs < 0 \<longleftrightarrow> (\<forall>x \<in> set xs. \<not> p x)"
  using findIndex_ge[of p]
  by (induction xs) (auto simp: Let_def)

lemma findIndex_first:
  "0 \<le> findIndex p xs \<Longrightarrow>
     nat (findIndex p xs) < length xs \<and> p (xs ! nat (findIndex p xs)) \<and>
     (\<forall>j < nat (findIndex p xs). \<not> p (xs ! j))"
proof (induction xs)
  case Nil
  then show ?case by simp
next
  case (Cons x xs)
  show ?case
  proof (cases "p x")
    case True
    then show ?thesis by simp
  next
    case False
    with Cons.prems have nn: "0 \<le> findIndex p xs" by (auto simp: Let_def split: if_splits)
    then have fi: "findIndex p (x # xs) = findIndex p xs + 1" using False by (simp add: Let_def)
    have n: "nat (findIndex p xs + 1) = Suc (nat (findIndex p xs))" using nn by simp
    from Cons.IH[OF nn] show ?thesis unfolding fi n using False
      by (auto simp: nth_Cons split: nat.splits)
  qed
qed


lemma matchesAny_iff: "matchesAny names h = contains_candidate names h"
  by (simp add: matchesAny_def contains_candidate_def list_ex_iff includes_iff)

lemma first_match_unique: "first_match p xs i \<Longrightarrow> first_match p xs j \<Longrightarrow> i = j"
  unfolding first_match_def by (meson nat_neq_iff)

lemma findIndex_first_match:
  "first_match p xs i \<Longrightarrow> findIndex p xs = int i"
proof -
  assume fm: "first_match p xs i"
  then have "\<not> (\<forall>x \<in> set xs. \<not> p x)" unfolding first_match_def by auto
  then have nn: "0 \<le> findIndex p xs" using findIndex_none[of p xs] by auto
  from findIndex_first[OF nn] have "first_match p xs (nat (findIndex p xs))"
    unfolding first_match_def by simp
  then have "nat (findIndex p xs) = i" using fm first_match_unique by blast
  then show ?thesis using nn by simp
qed

lemma first_match_map: "first_match p (map f xs) i = first_match (\<lambda>x. p (f x)) xs i"
  unfolding first_match_def by auto

lemma mapColumns_field:
  "mapColumns headers fld =
     (let idx = findIndex (matchesAny (options fld)) (map normalizeHeader headers)
      in if idx \<ge> 0 then Some (headers ! nat idx) else None)"
  by (cases fld) (simp_all add: mapColumns_def option_entries_def mapColumns_step_def Let_def)

lemma mapColumns_first:
  assumes "first_match (\<lambda>h. contains_candidate (options fld) (normalizeHeader h)) headers i"
  shows "mapColumns headers fld = Some (headers ! i)"
proof -
  have "first_match (matchesAny (options fld)) (map normalizeHeader headers) i"
    using assms by (simp add: first_match_map matchesAny_iff)
  then have "findIndex (matchesAny (options fld)) (map normalizeHeader headers) = int i"
    by (rule findIndex_first_match)
  then show ?thesis by (simp add: mapColumns_field)
qed

lemma mapColumns_none:
  assumes "\<forall>h \<in> set headers. \<not> contains_candidate (options fld) (normalizeHeader h)"
  shows "mapColumns headers fld = None"
proof -
  have "findIndex (matchesAny (options fld)) (map normalizeHeader headers) < 0"
    using assms by (simp add: findIndex_none matchesAny_iff)
  then show ?thesis by (simp add: mapColumns_field)
qed

lemma find_first_match:
  "first_match p xs i \<Longrightarrow> find p xs = Some (xs ! i)"
proof (induction xs arbitrary: i)
  case Nil
  then show ?case by (simp add: first_match_def)
next
  case (Cons x xs)
  show ?case
  proof (cases "p x")
    case True
    then have "i = 0" using Cons.prems unfolding first_match_def by (cases i) auto
    then show ?thesis using True by simp
  next
    case False
    then obtain k where k: "i = Suc k" using Cons.prems unfolding first_match_def by (cases i) auto
    have "first_match p xs k" using Cons.prems unfolding first_match_def k by auto
    then show ?thesis using Cons.IH False k by simp
  qed
qed

lemma list_ex_includes: "list_ex (includes_js k) cands = contains_candidate cands k"
  using matchesAny_iff[of cands k] by (simp add: matchesAny_def)

lemma findKey_loop_none:
  "(\<forall>k \<in> set ks. \<not> contains_candidate cands k) \<Longrightarrow> findKey_loop keys0 ks cands = None"
  by (induction ks) (auto simp: list_ex_includes)

lemma findKey_loop_first:
  "first_match (contains_candidate cands) ks i \<Longrightarrow>
     findKey_loop keys0 ks cands = Some (find (\<lambda>x. toLowerCase x = ks ! i) keys0)"
proof (induction ks arbitrary: i)
  case Nil
  then show ?case by (simp add: first_match_def)
next
  case (Cons k ks)
  show ?case
  proof (cases "contains_candidate cands k")
    case True
    then have "i = 0" using Cons.prems unfolding first_match_def by (cases i) auto
    then show ?thesis using True by (simp add: list_ex_includes)
  next
    case False
    then obtain j where j: "i = Suc j" using Cons.prems unfolding first_match_def by (cases i) auto
    have "first_match (contains_candidate cands) ks j"
      using Cons.prems unfolding first_match_def j by auto
    then show ?thesis using Cons.IH False j by (simp add: list_ex_includes)
  qed
qed

lemma findKey_first:
  assumes fm: "first_match (\<lambda>h. contains_candidate cands (toLowerCase h)) keys0 i"
  shows "findKey keys0 cands = Some (Some (keys0 ! i))"
proof -
  have "first_match (contains_candidate cands) (map toLowerCase keys0) i"
    using fm by (simp add: first_match_map)
  then have a: "findKey keys0 cands = Some (find (\<lambda>x. toLowerCase x = map toLowerCase keys0 ! i) keys0)"
    unfolding findKey_def by (rule findKey_loop_first)
  have i: "i < length keys0" using fm unfolding first_match_def by simp
  have "first_match (\<lambda>x. toLowerCase x = toLowerCase (keys0 ! i)) keys0 i"
    using fm unfolding first_match_def by auto
  then have "find (\<lambda>x. toLowerCase x = toLowerCase (keys0 ! i)) keys0 = Some (keys0 ! i)"
    by (rule find_first_match)
  then show ?thesis using a i by simp
qed

lemma findKey_none:
  assumes "\<forall>h \<in> set keys0. \<not> contains_candidate cands (toLowerCase h)"
  shows "findKey keys0 cands = None"
  unfolding findKey_def using assms by (intro findKey_loop_none) auto

text \<open>
  Claim C8. The column mapper gives each logical field the first header, in column
  order, whose normalised form contains one of the field's candidate substrings, and
  leaves the field unmapped when no header matches. This holds for \<^verbatim>\<open>mapColumns\<close>
  (headers trimmed and lowered) and for \<^verbatim>\<open>findKey\<close> of the script (headers
  lowered). For the headers Invoice Date, Client Name, E-mail the date is mapped to
  Invoice Date, the name to Client Name and the e-mail to E-mail.
\<close>

theorem column_mapper_first_match:
  "(first_match (\<lambda>h. contains_candidate (options fld) (normalizeHeader h)) headers i
      \<longrightarrow> mapColumns headers fld = Some (headers ! i))
   \<and> ((\<forall>h \<in> set headers. \<not> contains_candidate (options fld) (normalizeHeader h))
      \<longrightarrow> mapColumns headers fld = None)
   \<and> (first_match (\<lambda>h. contains_candidate (app_candidates af) (toLowerCase h)) headers i
      \<longrightarrow> app_map headers af = Some (Some (headers ! i)))
   \<and> ((\<forall>h \<in> set headers. \<not> contains_candidate (app_candidates af) (toLowerCase h))
      \<longrightarrow> app_map headers af = None)
   \<and> mapColumns example_headers FDate = Some ''Invoice Date''
   \<and> mapColumns example_headers FName = Some ''Client Name''
   \<and> mapColumns example_headers FEmail = Some ''E-mail''
   \<and> app_map example_headers ADate = Some (Some ''Invoice Date'')
   \<and> app_map example_headers AClient = Some (Some ''Client Name'')
   \<and> app_map example_headers AEmail = Some (Some ''E-mail'')"
proof -
  have e1: "mapColumns example_headers FDate = Some ''Invoice Date''" by code_simp
  have e2: "mapColumns example_headers FName = Some ''Client Name''" by code_simp
  have e3: "mapColumns example_headers FEmail = Some ''E-mail''" by code_simp
  have e4: "app_map example_headers ADate = Some (Some ''Invoice Date'')" by code_simp
  have e5: "app_map example_headers AClient = Some (Some ''Client Name'')" by code_simp
  have e6: "app_map example_headers AEmail = Some (Some ''E-mail'')" by code_simp
  show ?thesis
    using mapColumns_first[of fld headers i] mapColumns_none[of headers fld]
      findKey_first[of "app_candidates af" headers i] findKey_none[of headers "app_candidates af"]
      e1 e2 e3 e4 e5 e6
    unfolding app_map_def[symmetric] by (simp add: app_map_def)
qed

theorem column_mapper_first_match_witness:
  "first_match (\<lambda>h. contains_candidate (options FEmail) (normalizeHeader h)) example_headers 2
   \<and> mapColumns example_headers FEmail = Some (example_headers ! 2)
   \<and> list_all (\<lambda>h. \<not> contains_candidate (options FAmount) (normalizeHeader h)) example_headers
   \<and> mapColumns example_headers FAmount = None
   \<and> first_match (\<lambda>h. contains_candidate (app_candidates AEmail) (toLowerCase h)) example_headers 2
   \<and> app_map example_headers AEmail = Some (Some (example_headers ! 2))
   \<and> list_all (\<lambda>h. \<not> contains_candidate (app_candidates AAmount) (toLowerCase h)) example_headers
   \<and> app_map example_headers AAmount = None"
proof -
  have m0: "\<not> matchesAny (options FEmail) (normalizeHeader ''Invoice Date'')" by code_simp
  have m1: "\<not> matchesAny (options FEmail) (normalizeHeader ''Client Name'')" by code_simp
  have m2: "matchesAny (options FEmail) (normalizeHeader ''E-mail'')" by code_simp
  have fm: "first_match (\<lambda>h. contains_candidate (options FEmail) (normalizeHeader h)) example_headers 2"
    using m0 m1 m2
    by (simp add: first_match_def example_headers_def matchesAny_iff less_Suc_eq numeral_2_eq_2)
  have n0: "\<not> matchesAny (options FAmount) (normalizeHeader ''Invoice Date'')" by code_simp
  have n1: "\<not> matchesAny (options FAmount) (normalizeHeader ''Client Name'')" by code_simp
  have n2: "\<not> matchesAny (options FAmount) (normalizeHeader ''E-mail'')" by code_simp
  have none: "\<forall>h \<in> set example_headers. \<not> contains_candidate (options FAmount) (normalizeHeader h)"
    using n0 n1 n2 by (simp add: example_headers_def matchesAny_iff)
  have a0: "\<not> matchesAny (app_candidates AEmail) (toLowerCase ''Invoice Date'')" by code_simp
  have a1: "\<not> matchesAny (app_candidates AEmail) (toLowerCase ''Client Name'')" by code_simp
  have a2: "matchesAny (app_candidates AEmail) (toLowerCase ''E-mail'')" by code_simp
  have afm: "first_match (\<lambda>h. contains_candidate (app_candidates AEmail) (toLowerCase h)) example_headers 2"
    using a0 a1 a2
    by (simp add: first_match_def example_headers_def matchesAny_iff less_Suc_eq numeral_2_eq_2)
  have b0: "\<not> matchesAny (app_candidates AAmount) (toLowerCase ''Invoice Date'')" by code_simp
  have b1: "\<not> matchesAny (app_candidates AAmount) (toLowerCase ''Client Name'')" by code_simp
  have b2: "\<not> matchesAny (app_candidates AAmount) (toLowerCase ''E-mail'')" by code_simp
  have anone: "\<forall>h \<in> set example_headers. \<not> contains_candidate (app_candidates AAmount) (toLowerCase h)"
    using b0 b1 b2 by (simp add: example_headers_def matchesAny_iff)
  from column_mapper_first_match[of FEmail example_headers 2 AEmail] fm afm
  have r1: "mapColumns example_headers FEmail = Some (example_headers ! 2)"
    and r3: "app_map example_headers AEmail = Some (Some (example_headers ! 2))" by blast+
  from column_mapper_first_match[of FAmount example_headers 0 AAmount] none anone
  have r2: "mapColumns example_headers FAmount = None"
    and r4: "app_map example_headers AAmount = None" by blast+
  show ?thesis using fm afm none anone r1 r2 r3 r4 by (simp add: list_all_iff)
qed

section \<open>Selection state\<close>

lemma toggleExclude_nth:
  "k < length r \<Longrightarrow>
     toggleExclude r i ! k =
       (if row_id (r ! k) = i then (r ! k)\<lparr>excluded := \<not> excluded (r ! k)\<rparr> else r ! k)"
  by (simp add: toggleExclude_def)

lemma toggleExclude_absent: "(\<forall>x \<in> set r. row_id x \<noteq> i) \<Longrightarrow> toggleExclude r i = r"
  by (induction r) (simp_all add: toggleExclude_def)

lemma set_found_excluded_length: "length (set_found_excluded ar i c) = length ar"
  by (induction ar) simp_all

lemma set_found_excluded_nth:
  "k < length ar \<Longrightarrow>
     set_found_excluded ar i c ! k = ar ! k \<or>
     (Num (of_nat (a_id (ar ! k))) = i \<and> set_found_excluded ar i c ! k = (ar ! k)\<lparr>a_excluded := c\<rparr>)"
proof (induction ar arbitrary: k)
  case Nil
  then show ?case by simp
next
  case (Cons x xs)
  show ?case
  proof (cases k)
    case 0
    then show ?thesis by simp
  next
    case (Suc j)
    then have "j < length xs" using Cons.prems by simp
    from Cons.IH[OF this] show ?thesis using Suc by auto
  qed
qed

lemma set_found_excluded_absent:
  "(\<forall>x \<in> set ar. Num (of_nat (a_id x)) \<noteq> i) \<Longrightarrow> set_found_excluded ar i c = ar"
  by (induction ar) simp_all

text \<open>
  Claim C9. Toggling the exclusion flag for an id changes at most the \<open>excluded\<close> field
  of records with that id: every record keeps all its other fields, among them
  \<open>overdue\<close> and the age in days, a record with another id is unchanged, and when no
  record has the id the whole list is unchanged. No error can arise. This holds for
  \<^verbatim>\<open>toggleExclude\<close> of the React component and for the \<^verbatim>\<open>change\<close> listener of
  the script, which also leaves the list unchanged when the event is not from a check
  box.
\<close>

theorem exclusion_toggle_frame:
  "length (toggleExclude r i) = length r
   \<and> (\<forall>k < length r.
         toggleExclude r i ! k = (r ! k)\<lparr>excluded := excluded (toggleExclude r i ! k)\<rparr>
       \<and> overdue (toggleExclude r i ! k) = overdue (r ! k)
       \<and> days (toggleExclude r i ! k) = days (r ! k)
       \<and> (row_id (r ! k) \<noteq> i \<longrightarrow> toggleExclude r i ! k = r ! k))
   \<and> ((\<forall>x \<in> set r. row_id x \<noteq> i) \<longrightarrow> toggleExclude r i = r)
   \<and> length (onExcludedChange ar (Some (n, c))) = length ar
   \<and> (\<forall>k < length ar.
         onExcludedChange ar (Some (n, c)) ! k
           = (ar ! k)\<lparr>a_excluded := a_excluded (onExcludedChange ar (Some (n, c)) ! k)\<rparr>
       \<and> a_overdue (onExcludedChange ar (Some (n, c)) ! k) = a_overdue (ar ! k)
       \<and> a_days (onExcludedChange ar (Some (n, c)) ! k) = a_days (ar ! k)
       \<and> (Num (of_nat (a_id (ar ! k))) \<noteq> n \<longrightarrow> onExcludedChange ar (Some (n, c)) ! k = ar ! k))
   \<and> ((\<forall>x \<in> set ar. Num (of_nat (a_id x)) \<noteq> n) \<longrightarrow> onExcludedChange ar (Some (n, c)) = ar)
   \<and> onExcludedChange ar None = ar"
proof -
  have a: "length (toggleExclude r i) = length r" by (simp add: toggleExclude_def)
  have b: "\<forall>k < length r.
         toggleExclude r i ! k = (r ! k)\<lparr>excluded := excluded (toggleExclude r i ! k)\<rparr>
       \<and> overdue (toggleExclude r i ! k) = overdue (r ! k)
       \<and> days (toggleExclude r i ! k) = days (r ! k)
       \<and> (row_id (r ! k) \<noteq> i \<longrightarrow> toggleExclude r i ! k = r ! k)"
    by (simp add: toggleExclude_nth)
  have c: "(\<forall>x \<in> set r. row_id x \<noteq> i) \<longrightarrow> toggleExclude r i = r"
    using toggleExclude_absent by blast
  have d: "length (onExcludedChange ar (Some (n, c))) = length ar"
    by (simp add: onExcludedChange_def set_found_excluded_length)
  have e: "\<forall>k < length ar.
         onExcludedChange ar (Some (n, c)) ! k
           = (ar ! k)\<lparr>a_excluded := a_excluded (onExcludedChange ar (Some (n, c)) ! k)\<rparr>
       \<and> a_overdue (onExcludedChange ar (Some (n, c)) ! k) = a_overdue (ar ! k)
       \<and> a_days (onExcludedChange ar (Some (n, c)) ! k) = a_days (ar ! k)
       \<and> (Num (of_nat (a_id (ar ! k))) \<noteq> n \<longrightarrow> onExcludedChange ar (Some (n, c)) ! k = ar ! k)"
  proof (intro allI impI)
    fix k assume "k < length ar"
    from set_found_excluded_nth[OF this, of n c]
    show "onExcludedChange ar (Some (n, c)) ! k
           = (ar ! k)\<lparr>a_excluded := a_excluded (onExcludedChange ar (Some (n, c)) ! k)\<rparr>
       \<and> a_overdue (onExcludedChange ar (Some (n, c)) ! k) = a_overdue (ar ! k)
       \<and> a_days (onExcludedChange ar (Some (n, c)) ! k) = a_days (ar ! k)
       \<and> (Num (of_nat (a_id (ar ! k))) \<noteq> n \<longrightarrow> onExcludedChange ar (Some (n, c)) ! k = ar ! k)"
      by (auto simp: onExcludedChange_def)
  qed
  have f: "(\<forall>x \<in> set ar. Num (of_nat (a_id x)) \<noteq> n) \<longrightarrow> onExcludedChange ar (Some (n, c)) = ar"
    using set_found_excluded_absent by (simp add: onExcludedChange_def)
  have g: "onExcludedChange ar None = ar" by (simp add: onExcludedChange_def)
  show ?thesis using a b c d e f g by blast
qed

theorem exclusion_toggle_frame_witness:
  "toggleExclude [example_row, example_row_no_at] 2 ! 0 = example_row
   \<and> toggleExclude [example_row, example_row_no_at] 2 ! 1
       = example_row_no_at\<lparr>excluded := excluded (toggleExclude [example_row, example_row_no_at] 2 ! 1)\<rparr>
   \<and> list_all (\<lambda>x. row_id x \<noteq> 3) [example_row, example_row_no_at]
   \<and> toggleExclude [example_row, example_row_no_at] 3 = [example_row, example_row_no_at]
   \<and> onExcludedChange [example_app_row, example_app_row_no_at] (Some (Num 2, True)) ! 0 = example_app_row
   \<and> list_all (\<lambda>x. Num (of_nat (a_id x)) \<noteq> Num 3) [example_app_row, example_app_row_no_at]
   \<and> onExcludedChange [example_app_row, example_app_row_no_at] (Some (Num 3, True))
       = [example_app_row, example_app_row_no_at]"
proof -
  have ids: "row_id example_row = 1" "row_id example_row_no_at = 2"
    "a_id example_app_row = 1" "a_id example_app_row_no_at = 2"
    by (simp_all add: example_row_def example_row_no_at_def example_app_row_def
        example_app_row_no_at_def)
  from exclusion_toggle_frame[of "[example_row, example_row_no_at]" 2
      "[example_app_row, example_app_row_no_at]" "Num 2" True]
  have k0: "toggleExclude [example_row, example_row_no_at] 2 ! 0 = example_row"
    and k1: "toggleExclude [example_row, example_row_no_at] 2 ! 1
       = example_row_no_at\<lparr>excluded := excluded (toggleExclude [example_row, example_row_no_at] 2 ! 1)\<rparr>"
    and a0: "onExcludedChange [example_app_row, example_app_row_no_at] (Some (Num 2, True)) ! 0 = example_app_row"
    using ids by (auto simp: All_less_Suc2 numeral_2_eq_2)
  from exclusion_toggle_frame[of "[example_row, example_row_no_at]" 3
      "[example_app_row, example_app_row_no_at]" "Num 3" True]
  have n3: "toggleExclude [example_row, example_row_no_at] 3 = [example_row, example_row_no_at]"
    and a3: "onExcludedChange [example_app_row, example_app_row_no_at] (Some (Num 3, True))
       = [example_app_row, example_app_row_no_at]"
    using ids by auto
  show ?thesis using k0 k1 a0 n3 a3 ids by simp
qed

text \<open>
  Claim C10. Toggling the exclusion flag twice with the same id gives back the record
  list it started from.
\<close>

theorem toggleExclude_involution: "toggleExclude (toggleExclude r i) i = r"
  by (induction r) (simp_all add: toggleExclude_def)

theorem toggleExclude_involution_witness:
  "toggleExclude (toggleExclude [example_row, example_row_no_at] 2) 2
     = [example_row, example_row_no_at]"
  using toggleExclude_involution[of "[example_row, example_row_no_at]" 2] by simp

section \<open>The eligible set\<close>

text \<open>
  Claim C2, as the code has it. The records selected for notification are exactly the
  records that are overdue, not excluded and have a non-empty e-mail cell, in the order
  of the record list; the payload carries their e-mail cells unchanged. The selection
  does not look at the syntax of the address: every overdue, not excluded record with a
  non-empty address text is selected. This holds for \<^verbatim>\<open>sendReminders\<close> and for
  the \<^verbatim>\<open>sendBtn\<close> listener.
\<close>

theorem eligible_set_nonempty_email:
  "set (toSend rows) = {r \<in> set rows. overdue r \<and> \<not> excluded r \<and> truthy (email r)}
   \<and> subseq (toSend rows) rows
   \<and> (\<forall>r s. email r = JStr s \<longrightarrow>
         (r \<in> set (toSend rows) \<longleftrightarrow> r \<in> set rows \<and> overdue r \<and> \<not> excluded r \<and> s \<noteq> []))
   \<and> map p_email (payload P template rows) = map email (toSend rows)
   \<and> set (app_toSend ars) = {r \<in> set ars. a_overdue r \<and> \<not> a_excluded r \<and> truthy (a_email r)}
   \<and> subseq (app_toSend ars) ars
   \<and> (\<forall>r s. a_email r = JStr s \<longrightarrow>
         (r \<in> set (app_toSend ars) \<longleftrightarrow> r \<in> set ars \<and> a_overdue r \<and> \<not> a_excluded r \<and> s \<noteq> []))"
proof -
  have a: "set (toSend rows) = {r \<in> set rows. overdue r \<and> \<not> excluded r \<and> truthy (email r)}"
    by (auto simp: toSend_def)
  have b: "subseq (toSend rows) rows" by (simp add: toSend_def)
  have c: "\<forall>r s. email r = JStr s \<longrightarrow>
         (r \<in> set (toSend rows) \<longleftrightarrow> r \<in> set rows \<and> overdue r \<and> \<not> excluded r \<and> s \<noteq> [])"
    by (auto simp: toSend_def truthy_def)
  have d: "map p_email (payload P template rows) = map email (toSend rows)"
    by (simp add: payload_def comp_def)
  have e: "set (app_toSend ars) = {r \<in> set ars. a_overdue r \<and> \<not> a_excluded r \<and> truthy (a_email r)}"
    by (auto simp: app_toSend_def)
  have f: "subseq (app_toSend ars) ars" by (simp add: app_toSend_def)
  have g: "\<forall>r s. a_email r = JStr s \<longrightarrow>
         (r \<in> set (app_toSend ars) \<longleftrightarrow> r \<in> set ars \<and> a_overdue r \<and> \<not> a_excluded r \<and> s \<noteq> [])"
    by (auto simp: app_toSend_def truthy_def)
  show ?thesis using a b c d e f g by blast
qed

theorem eligible_set_nonempty_email_witness:
  "email example_row = JStr ''ann@example.com''
   \<and> example_row \<in> set (toSend [example_row, example_row\<lparr>excluded := True\<rparr>,
                                  example_row\<lparr>email := JStr []\<rparr>])
   \<and> email (example_row\<lparr>email := JStr []\<rparr>) = JStr []
   \<and> example_row\<lparr>email := JStr []\<rparr> \<notin> set (toSend [example_row, example_row\<lparr>excluded := True\<rparr>,
                                  example_row\<lparr>email := JStr []\<rparr>])
   \<and> a_email example_app_row = JStr ''ann@example.com''
   \<and> example_app_row \<in> set (app_toSend [example_app_row, example_app_row\<lparr>a_excluded := True\<rparr>])"
proof -
  let ?rows = "[example_row, example_row\<lparr>excluded := True\<rparr>, example_row\<lparr>email := JStr []\<rparr>]"
  let ?ars = "[example_app_row, example_app_row\<lparr>a_excluded := True\<rparr>]"
  have e1: "email example_row = JStr ''ann@example.com''" "overdue example_row"
    "\<not> excluded example_row" by (simp_all add: example_row_def)
  have e2: "a_email example_app_row = JStr ''ann@example.com''" "a_overdue example_app_row"
    "\<not> a_excluded example_app_row" by (simp_all add: example_app_row_def)
  note t = eligible_set_nonempty_email[of ?rows ref_platform "[]" ?ars]
  note c3 = t[THEN conjunct2, THEN conjunct2, THEN conjunct1, rule_format]
  note c7 = t[THEN conjunct2, THEN conjunct2, THEN conjunct2, THEN conjunct2, THEN conjunct2,
      THEN conjunct2, rule_format]
  have r1: "example_row \<in> set (toSend ?rows)"
    using c3[of example_row "''ann@example.com''"] e1 by simp
  have r2: "example_row\<lparr>email := JStr []\<rparr> \<notin> set (toSend ?rows)"
    using c3[of "example_row\<lparr>email := JStr []\<rparr>" "[]"] by simp
  have r3: "example_app_row \<in> set (app_toSend ?ars)"
    using c7[of example_app_row "''ann@example.com''"] e2 by simp
  show ?thesis using e1 e2 r1 r2 r3 by simp
qed

text \<open>The claim as stated fails: a record whose address holds no at sign, and so is
  not a syntactically valid address, is selected by both front ends.\<close>

theorem eligible_set_counterexample:
  "example_row_no_at \<in> set (toSend [example_row, example_row_no_at])
   \<and> email example_row_no_at = JStr ''ann.example.com''
   \<and> \<not> has_at_sign (email example_row_no_at)
   \<and> example_app_row_no_at \<in> set (app_toSend [example_app_row, example_app_row_no_at])
   \<and> a_email example_app_row_no_at = JStr ''ann.example.com''
   \<and> \<not> has_at_sign (a_email example_app_row_no_at)"
  by (simp add: toSend_def app_toSend_def example_row_no_at_def example_row_def
      example_app_row_no_at_def example_app_row_def truthy_def has_at_sign_def)

section \<open>The paid flag\<close>

lemma of_char_less_256: "(of_char c :: nat) < 256"
  by (metis of_char_mod_256 mod_less_divisor zero_less_numeral)

lemma toLowerChar_y: "toLowerChar c = CHR ''y'' \<longleftrightarrow> c = CHR ''y'' \<or> c = CHR ''Y''"
proof -
  let ?n = "of_char c :: nat"
  have y: "c = CHR ''y'' \<longleftrightarrow> ?n = 121"
    using of_char_eq_iff[of c "CHR ''y''", where ?'a = nat] by simp
  have Y: "c = CHR ''Y'' \<longleftrightarrow> ?n = 89"
    using of_char_eq_iff[of c "CHR ''Y''", where ?'a = nat] by simp
  show ?thesis
  proof (cases "65 \<le> ?n \<and> ?n \<le> 90")
    case True
    then have "toLowerChar c = char_of (?n + 32)" by (simp add: toLowerChar_def Let_def)
    moreover have "char_of (?n + 32) = CHR ''y'' \<longleftrightarrow> ?n + 32 = 121"
      using True by (simp add: char_of_eq_iff take_bit_nat_eq_self)
    ultimately show ?thesis using True y Y by auto
  next
    case False
    then have "toLowerChar c = c" by (auto simp: toLowerChar_def Let_def)
    then show ?thesis using False y Y by auto
  qed
qed

lemma startsWith_y:
  "startsWith (toLowerCase s) ''y'' = (case s of [] \<Rightarrow> False | c # cs \<Rightarrow> c = CHR ''y'' \<or> c = CHR ''Y'')"
  by (cases s) (simp_all add: toLowerCase_def toLowerChar_y)

lemma isAffirmative_eq:
  "isAffirmative P v = Inr (truthy v \<and> startsWith (toLowerCase (ToString P v)) ''y'')"
  by (cases v) (simp_all add: isAffirmative_def toString_method_def truthy_def)

text \<open>
  Claim C4, as the code has it. A paid flag counts as affirmative if and only if the
  value is truthy and its string form, lowered but not trimmed, starts with the letter
  y; for a text this means that its first character is \<open>y\<close> or \<open>Y\<close>. The test never
  throws.
\<close>

theorem paid_flag_affirmative:
  "isAffirmative P v = Inr (truthy v \<and> startsWith (toLowerCase (ToString P v)) ''y'')
   \<and> isAffirmative P (JStr s)
       = Inr (case s of [] \<Rightarrow> False | c # cs \<Rightarrow> c = CHR ''y'' \<or> c = CHR ''Y'')"
proof -
  have "isAffirmative P (JStr s) = Inr (s \<noteq> [] \<and> startsWith (toLowerCase s) ''y'')"
    by (simp add: isAffirmative_eq truthy_def ToString_def)
  then have "isAffirmative P (JStr s)
       = Inr (case s of [] \<Rightarrow> False | c # cs \<Rightarrow> c = CHR ''y'' \<or> c = CHR ''Y'')"
    by (cases s) (simp_all add: startsWith_y)
  then show ?thesis using isAffirmative_eq by simp
qed

theorem paid_flag_affirmative_witness:
  "isAffirmative ref_platform (JStr ''Yes'') = Inr True
   \<and> isAffirmative ref_platform (JStr ''no'') = Inr False
   \<and> isAffirmative ref_platform (JStr []) = Inr False"
  using paid_flag_affirmative[of ref_platform "JStr ''Yes''" "''Yes''", THEN conjunct2]
    paid_flag_affirmative[of ref_platform "JStr ''no''" "''no''", THEN conjunct2]
    paid_flag_affirmative[of ref_platform "JStr []" "[]", THEN conjunct2]
  by simp

text \<open>The claim as stated fails: the text \<open>'' yes''\<close> starts with the letter y once it
  is trimmed and lowered, and the code does not count it as affirmative.\<close>

theorem paid_flag_trim_counterexample:
  "isAffirmative ref_platform (JStr '' yes'') = Inr False
   \<and> startsWith (toLowerCase (trim '' yes'')) ''y''"
proof -
  have "isAffirmative ref_platform (JStr '' yes'') = Inr False"
    by (simp add: isAffirmative_eq truthy_def ToString_def toLowerCase_def toLowerChar_y)
  moreover have "startsWith (toLowerCase (trim '' yes'')) ''y''" by code_simp
  ultimately show ?thesis by simp
qed

section \<open>Rendering the message\<close>

lemma split_first_None: "split_first s pat = None \<longleftrightarrow> \<not> includes_js s pat"
  by (induction s) (auto split: option.splits)

lemma split_first_first:
  "split_first s pat = Some (pre, post) \<Longrightarrow> first_occurrence s pat pre post"
proof (induction s arbitrary: pre post)
  case Nil
  then show ?case by (simp add: first_occurrence_def split: if_splits)
next
  case (Cons c cs)
  show ?case
  proof (cases "startsWith (c # cs) pat")
    case True
    then obtain t where t: "c # cs = pat @ t" by (auto simp: startsWith_iff)
    from True Cons.prems have "pre = []" "post = drop (length pat) (c # cs)" by simp_all
    then show ?thesis using t by (simp add: first_occurrence_def)
  next
    case False
    with Cons.prems obtain pre0 where s0: "split_first cs pat = Some (pre0, post)"
      and p: "pre = c # pre0" by (auto split: option.splits)
    from Cons.IH[OF s0] have fo: "first_occurrence cs pat pre0 post" .
    have "length pre \<le> length pre'" if e: "c # cs = pre' @ pat @ post'" for pre' post'
    proof (cases pre')
      case Nil
      then have "startsWith (c # cs) pat" using e by (auto simp: startsWith_iff)
      then show ?thesis using False by simp
    next
      case (Cons a p'')
      then have "cs = p'' @ pat @ post'" using e by simp
      then have "length pre0 \<le> length p''" using fo unfolding first_occurrence_def by blast
      then show ?thesis using p Cons by simp
    qed
    then show ?thesis using fo p unfolding first_occurrence_def by auto
  qed
qed

lemma first_occurrence_unique:
  assumes "first_occurrence s pat pre post" and "first_occurrence s pat pre' post'"
  shows "pre = pre' \<and> post = post'"
proof -
  from assms have e: "pre @ pat @ post = pre' @ pat @ post'" and l: "length pre = length pre'"
    unfolding first_occurrence_def by (auto simp: le_antisym)
  from e l show ?thesis by simp
qed

lemma split_first_of_first:
  assumes "first_occurrence s pat pre post"
  shows "split_first s pat = Some (pre, post)"
proof -
  from assms have "includes_js s pat" unfolding first_occurrence_def includes_iff by blast
  then obtain p q where pq: "split_first s pat = Some (p, q)"
    using split_first_None[of s pat] by (cases "split_first s pat") auto
  from split_first_first[OF pq] assms show ?thesis
    using pq first_occurrence_unique by blast
qed

lemma getSubstitution_plain:
  "CHR ''$'' \<notin> set v \<Longrightarrow> getSubstitution matched pre post v = v"
  by (induction matched pre post v rule: getSubstitution.induct) auto

lemma replace_js_absent: "\<not> occurs_in pat s \<Longrightarrow> replace_js s pat v = s"
  using split_first_None[of s pat] by (simp add: replace_js_def occurs_in_def includes_iff)

lemma replace_js_first:
  "first_occurrence s pat pre post \<Longrightarrow>
     replace_js s pat v = pre @ getSubstitution pat pre post v @ post"
  by (simp add: replace_js_def split_first_of_first)

lemma replace_js_plain:
  assumes "CHR ''$'' \<notin> set v"
  shows "replaces_first pat v s (replace_js s pat v)"
proof (cases "occurs_in pat s")
  case False
  then show ?thesis by (simp add: replaces_first_def replace_js_absent)
next
  case True
  then have "includes_js s pat" by (simp add: occurs_in_def includes_iff)
  then obtain p q where pq: "split_first s pat = Some (p, q)"
    using split_first_None[of s pat] by (cases "split_first s pat") auto
  then have fo: "first_occurrence s pat p q" by (rule split_first_first)
  then have "replace_js s pat v = p @ v @ q"
    using assms by (simp add: replace_js_first getSubstitution_plain)
  then show ?thesis using True fo unfolding replaces_first_def by auto
qed

text \<open>
  What rendering does. It is four successive replacements, for the placeholders of the
  name, the invoice, the amount and the days in this order. Each step leaves a text
  without its placeholder unchanged, and otherwise replaces only the first occurrence of
  the placeholder in the text produced so far, keeping what stands before and after it
  verbatim; what it inserts is the field's string form with the replacement patterns of
  \<^verbatim>\<open>String.prototype.replace\<close> expanded, which is the string form itself when that
  holds no dollar sign. A template with none of the four placeholders, whatever other
  placeholders it holds, is returned as it is.
\<close>

lemma render_steps:
  "(\<not> occurs_in pat s \<longrightarrow> replace_js s pat v = s)
   \<and> (first_occurrence s pat pre post \<longrightarrow>
        replace_js s pat v = pre @ getSubstitution pat pre post v @ post)
   \<and> (CHR ''$'' \<notin> set v \<longrightarrow> getSubstitution pat pre post v = v)
   \<and> (CHR ''$'' \<notin> set (ToString P (clientName x)) \<and> CHR ''$'' \<notin> set (ToString P (invoiceNumber x))
        \<and> CHR ''$'' \<notin> set (ToString P (amount x)) \<and> CHR ''$'' \<notin> set (ToString P (days_val (days x)))
      \<longrightarrow> (\<exists>s1 s2 s3.
             replaces_first ''{{name}}'' (ToString P (clientName x)) template s1
           \<and> replaces_first ''{{invoice}}'' (ToString P (invoiceNumber x)) s1 s2
           \<and> replaces_first ''{{amount}}'' (ToString P (amount x)) s2 s3
           \<and> replaces_first ''{{days}}'' (ToString P (days_val (days x))) s3 (render P template x)))
   \<and> (\<not> occurs_in ''{{name}}'' template \<and> \<not> occurs_in ''{{invoice}}'' template
        \<and> \<not> occurs_in ''{{amount}}'' template \<and> \<not> occurs_in ''{{days}}'' template
      \<longrightarrow> render P template x = template)"
proof -
  have a: "\<not> occurs_in pat s \<longrightarrow> replace_js s pat v = s"
    by (simp add: replace_js_absent)
  have b: "first_occurrence s pat pre post \<longrightarrow>
        replace_js s pat v = pre @ getSubstitution pat pre post v @ post"
    by (simp add: replace_js_first)
  have c: "CHR ''$'' \<notin> set v \<longrightarrow> getSubstitution pat pre post v = v"
    by (simp add: getSubstitution_plain)
  have d: "\<exists>s1 s2 s3.
             replaces_first ''{{name}}'' (ToString P (clientName x)) template s1
           \<and> replaces_first ''{{invoice}}'' (ToString P (invoiceNumber x)) s1 s2
           \<and> replaces_first ''{{amount}}'' (ToString P (amount x)) s2 s3
           \<and> replaces_first ''{{days}}'' (ToString P (days_val (days x))) s3 (render P template x)"
    if "CHR ''$'' \<notin> set (ToString P (clientName x))" "CHR ''$'' \<notin> set (ToString P (invoiceNumber x))"
       "CHR ''$'' \<notin> set (ToString P (amount x))" "CHR ''$'' \<notin> set (ToString P (days_val (days x)))"
    unfolding render_def using that replace_js_plain by blast
  have e: "render P template x = template"
    if "\<not> occurs_in ''{{name}}'' template" "\<not> occurs_in ''{{invoice}}'' template"
       "\<not> occurs_in ''{{amount}}'' template" "\<not> occurs_in ''{{days}}'' template"
    unfolding render_def using that by (simp add: replace_js_absent)
  show ?thesis using a b c d e by blast
qed

lemma ref_show_45: "ToString ref_platform (days_val (days example_row)) = ''45''"
proof -
  have "show_int 45 = ''45''" by code_simp
  then show ?thesis
    by (simp add: example_row_def days_val_def ToString_def ref_platform_def ref_num_toString_def)
qed

lemma example_row_strings:
  "ToString ref_platform (clientName example_row) = ''Ann''"
  "ToString ref_platform (invoiceNumber example_row) = ''F-1''"
  "ToString ref_platform (amount example_row) = ''120''"
  by (simp_all add: example_row_def ToString_def)

lemma render_steps_example:
  "\<not> occurs_in ''{{name}}'' ''Hello {{client}}'' \<and> \<not> occurs_in ''{{invoice}}'' ''Hello {{client}}''
   \<and> \<not> occurs_in ''{{amount}}'' ''Hello {{client}}'' \<and> \<not> occurs_in ''{{days}}'' ''Hello {{client}}''
   \<and> render ref_platform ''Hello {{client}}'' example_row = ''Hello {{client}}''
   \<and> first_occurrence ''a {{name}} b {{name}}'' ''{{name}}'' ''a '' '' b {{name}}''
   \<and> replace_js ''a {{name}} b {{name}}'' ''{{name}}'' ''Ann'' = ''a Ann b {{name}}''
   \<and> CHR ''$'' \<notin> set (ToString ref_platform (clientName example_row))
   \<and> CHR ''$'' \<notin> set (ToString ref_platform (invoiceNumber example_row))
   \<and> CHR ''$'' \<notin> set (ToString ref_platform (amount example_row))
   \<and> CHR ''$'' \<notin> set (ToString ref_platform (days_val (days example_row)))
   \<and> (\<exists>s1 s2 s3.
         replaces_first ''{{name}}'' (ToString ref_platform (clientName example_row))
           ''{{name}}: {{days}}'' s1
       \<and> replaces_first ''{{invoice}}'' (ToString ref_platform (invoiceNumber example_row)) s1 s2
       \<and> replaces_first ''{{amount}}'' (ToString ref_platform (amount example_row)) s2 s3
       \<and> replaces_first ''{{days}}'' (ToString ref_platform (days_val (days example_row))) s3
           (render ref_platform ''{{name}}: {{days}}'' example_row))"
proof -
  have n1: "\<not> includes_js ''Hello {{client}}'' ''{{name}}''" by code_simp
  have n2: "\<not> includes_js ''Hello {{client}}'' ''{{invoice}}''" by code_simp
  have n3: "\<not> includes_js ''Hello {{client}}'' ''{{amount}}''" by code_simp
  have n4: "\<not> includes_js ''Hello {{client}}'' ''{{days}}''" by code_simp
  have absent: "\<not> occurs_in ''{{name}}'' ''Hello {{client}}''"
    "\<not> occurs_in ''{{invoice}}'' ''Hello {{client}}''"
    "\<not> occurs_in ''{{amount}}'' ''Hello {{client}}''"
    "\<not> occurs_in ''{{days}}'' ''Hello {{client}}''"
    using n1 n2 n3 n4 by (simp_all add: occurs_in_def includes_iff)
  have sf: "split_first ''a {{name}} b {{name}}'' ''{{name}}'' = Some (''a '', '' b {{name}}'')"
    by code_simp
  have fo: "first_occurrence ''a {{name}} b {{name}}'' ''{{name}}'' ''a '' '' b {{name}}''"
    using split_first_first[OF sf] .
  have plain: "CHR ''$'' \<notin> set (ToString ref_platform (clientName example_row))"
    "CHR ''$'' \<notin> set (ToString ref_platform (invoiceNumber example_row))"
    "CHR ''$'' \<notin> set (ToString ref_platform (amount example_row))"
    "CHR ''$'' \<notin> set (ToString ref_platform (days_val (days example_row)))"
    by (simp_all add: example_row_strings ref_show_45)
  note t1 = render_steps[of "''{{name}}''" "''a {{name}} b {{name}}''" "''Ann''"
      "''a ''" "'' b {{name}}''" ref_platform example_row "''Hello {{client}}''"]
  from t1 absent have r1: "render ref_platform ''Hello {{client}}'' example_row = ''Hello {{client}}''"
    by blast
  from t1 fo have "replace_js ''a {{name}} b {{name}}'' ''{{name}}'' ''Ann''
      = ''a '' @ getSubstitution ''{{name}}'' ''a '' '' b {{name}}'' ''Ann'' @ '' b {{name}}''"
    by blast
  moreover from t1 have "getSubstitution ''{{name}}'' ''a '' '' b {{name}}'' ''Ann'' = ''Ann''"
    by simp
  ultimately have r2: "replace_js ''a {{name}} b {{name}}'' ''{{name}}'' ''Ann'' = ''a Ann b {{name}}''"
    by simp
  note t2 = render_steps[of "''{{name}}''" "''a {{name}} b {{name}}''" "''Ann''"
      "''a ''" "'' b {{name}}''" ref_platform example_row "''{{name}}: {{days}}''"]
  from t2 plain have r3: "\<exists>s1 s2 s3.
         replaces_first ''{{name}}'' (ToString ref_platform (clientName example_row))
           ''{{name}}: {{days}}'' s1
       \<and> replaces_first ''{{invoice}}'' (ToString ref_platform (invoiceNumber example_row)) s1 s2
       \<and> replaces_first ''{{amount}}'' (ToString ref_platform (amount example_row)) s2 s3
       \<and> replaces_first ''{{days}}'' (ToString ref_platform (days_val (days example_row))) s3
           (render ref_platform ''{{name}}: {{days}}'' example_row)"
    by blast
  show ?thesis using absent r1 fo r2 plain r3 by blast
qed

text \<open>Two renderings on the reference platform. For the amount text \<open>$$120\<close> the
  result is not the template with the first occurrence of the placeholder replaced by
  that text.\<close>

lemma render_examples:
  "ToString ref_platform (amount example_row_dollars) = ''$$120''
   \<and> render ref_platform ''Total due: {{amount}}'' example_row_dollars = ''Total due: $120''
   \<and> \<not> replaces_first ''{{amount}}'' (ToString ref_platform (amount example_row_dollars))
         ''Total due: {{amount}}'' (render ref_platform ''Total due: {{amount}}'' example_row_dollars)
   \<and> render ref_platform ''{{name}}: {{invoice}}'' example_row_braces = ''F-1: {{invoice}}''"
proof -
  have d: "ToString ref_platform (days_val (days example_row)) = ''45''" by (rule ref_show_45)
  have s: "ToString ref_platform (amount example_row_dollars) = ''$$120''"
    "ToString ref_platform (clientName example_row_dollars) = ''Ann''"
    "ToString ref_platform (invoiceNumber example_row_dollars) = ''F-1''"
    "ToString ref_platform (days_val (days example_row_dollars)) = ''45''"
    using d by (simp_all add: example_row_dollars_def example_row_def ToString_def)
  have b: "ToString ref_platform (amount example_row_braces) = ''120''"
    "ToString ref_platform (clientName example_row_braces) = ''{{invoice}}''"
    "ToString ref_platform (invoiceNumber example_row_braces) = ''F-1''"
    "ToString ref_platform (days_val (days example_row_braces)) = ''45''"
    using d by (simp_all add: example_row_braces_def example_row_def ToString_def)
  have c1: "replace_js (replace_js (replace_js (replace_js ''Total due: {{amount}}''
         ''{{name}}'' ''Ann'') ''{{invoice}}'' ''F-1'') ''{{amount}}'' ''$$120'') ''{{days}}'' ''45''
       = ''Total due: $120''" by code_simp
  have r1: "render ref_platform ''Total due: {{amount}}'' example_row_dollars = ''Total due: $120''"
    using c1 by (simp add: render_def s)
  have c2: "replace_js (replace_js (replace_js (replace_js ''{{name}}: {{invoice}}''
         ''{{name}}'' ''{{invoice}}'') ''{{invoice}}'' ''F-1'') ''{{amount}}'' ''120'') ''{{days}}'' ''45''
       = ''F-1: {{invoice}}''" by code_simp
  have r2: "render ref_platform ''{{name}}: {{invoice}}'' example_row_braces = ''F-1: {{invoice}}''"
    using c2 by (simp add: render_def b)
  have sf: "split_first ''Total due: {{amount}}'' ''{{amount}}'' = Some (''Total due: '', [])"
    by code_simp
  have occ: "occurs_in ''{{amount}}'' ''Total due: {{amount}}''"
    using split_first_first[OF sf] unfolding first_occurrence_def occurs_in_def by blast
  have "\<not> replaces_first ''{{amount}}'' ''$$120'' ''Total due: {{amount}}'' ''Total due: $120''"
  proof
    assume "replaces_first ''{{amount}}'' ''$$120'' ''Total due: {{amount}}'' ''Total due: $120''"
    with occ obtain pre post where fo: "first_occurrence ''Total due: {{amount}}'' ''{{amount}}'' pre post"
      and e: "''Total due: $120'' = pre @ ''$$120'' @ post"
      unfolding replaces_first_def by auto
    from split_first_of_first[OF fo] sf have "pre = ''Total due: ''" "post = []" by simp_all
    with e show False by simp
  qed
  then show ?thesis using s r1 r2 by simp
qed

text \<open>
  Claim C6. Rendering replaces only the first occurrence of each placeholder with the
  string form of its field and leaves everything else verbatim. The code breaks this
  for a field text with dollar signs: for the amount text \<open>$$120\<close> the placeholder
  of the amount is replaced by \<open>$120\<close>, so that the result is not the template with
  the first occurrence of the placeholder replaced by the amount text. And a client
  name that is itself the text of the invoice placeholder is replaced by the invoice
  number in the next step, while the invoice placeholder of the template stays.
\<close>

theorem render_dollar_signs:
  "ToString ref_platform (amount example_row_dollars) = ''$$120''
   \<and> render ref_platform ''Total due: {{amount}}'' example_row_dollars = ''Total due: $120''
   \<and> ToString ref_platform (clientName example_row_braces) = ''{{invoice}}''
   \<and> ToString ref_platform (invoiceNumber example_row_braces) = ''F-1''
   \<and> render ref_platform ''{{name}}: {{invoice}}'' example_row_braces = ''F-1: {{invoice}}''"
  using render_examples
  by (simp add: example_row_braces_def example_row_def ToString_def)

section \<open>Serial dates\<close>

lemma serial_epoch: "days_from_civil 1899 12 30 = - 25569"
  by code_simp

lemma trunc_of_int: "trunc (of_int k) = k"
  by (simp add: trunc_def)

lemma toString_method_truthy: "truthy v \<Longrightarrow> toString_method P v = Inr (ToString P v)"
  by (cases v) (simp_all add: truthy_def toString_method_def)

lemma parsedDate_of_number:
  assumes "truthy v" and "\<forall>d. v \<noteq> JDate d" and "Number_of P (ToString P v) \<noteq> NaN"
  shows "parsedDate_of P v = Inr (Some (TimeClip (serial_to_ms (Number_of P (ToString P v)))))"
  using assms
  by (cases v) (simp_all add: parsedDate_of_def toString_method_truthy isNaN_num_def Let_def)

lemma TimeClip_whole_days:
  assumes "\<bar>k\<bar> \<le> 100000000"
  shows "TimeClip (Num (of_int k * 86400 * 1000)) = Some (k * msPerDay)"
proof -
  have e: "(of_int k * 86400 * 1000 :: real) = of_int (k * 86400000)" by simp
  have "\<bar>k * 86400000\<bar> \<le> 8640000000000000" using assms by (simp add: abs_mult)
  then have "\<bar>of_int (k * 86400000) :: real\<bar> \<le> 8640000000000000"
    by (metis of_int_abs of_int_le_iff of_int_numeral)
  then show ?thesis unfolding e TimeClip_def
    by (simp add: trunc_of_int msPerDay_def del: of_int_mult)
qed

lemma parsedDate_of_serial:
  assumes "truthy v" and "\<forall>d. v \<noteq> JDate d" and "Number_of P (ToString P v) = Num (of_int n)"
    and "\<bar>n - 25569\<bar> \<le> 100000000"
  shows "parsedDate_of P v = Inr (Some (Some (serial_day n * msPerDay)))"
proof -
  have "parsedDate_of P v = Inr (Some (TimeClip (Num (of_int (n - 25569) * 86400 * 1000))))"
    using parsedDate_of_number[OF assms(1,2)] assms(3) by (simp add: serial_to_ms_def)
  then show ?thesis
    using TimeClip_whole_days[OF assms(4)] by (simp add: serial_day_def serial_epoch)
qed

lemma utc_date_whole_day: "utc_date (k * msPerDay) = civil_from_days k"
  by (simp add: utc_date_def msPerDay_def)

lemma ToString_Date_parse_update [simp]: "ToString (P\<lparr>Date_parse := f\<rparr>) v = ToString P v"
  by (cases v) (simp_all add: ToString_def)

lemma parseDateMaybe_number:
  assumes "x \<noteq> 0" and "\<bar>x\<bar> \<le> 8640000000000000"
  shows "parseDateMaybe P (JNum (Num x)) = Inr (Some (Some (trunc x)))"
  using assms by (simp add: parseDateMaybe_def truthy_def new_Date_def TimeClip_def)

text \<open>
  Claim C3, as the code has it. In the React component a cell that is truthy, is not a
  date object and whose string form converts to a number is read as a spreadsheet
  serial: the date is \<^verbatim>\<open>new Date((num - 25569) * 86400 * 1000)\<close>, whatever
  \<^verbatim>\<open>Date.parse\<close> would make of the text. For a whole serial \<open>n\<close> within the range of
  dates this is midnight UTC of the day \<open>n\<close> days after 1899-12-30, and when the
  number 44197 survives its conversion to a string and back, the numeric cell 44197 gives
  2021-01-01. The script has no serial branch: \<^verbatim>\<open>parseDateMaybe\<close> reads a number other
  than zero as milliseconds since 1970-01-01.
\<close>

theorem serial_date_normalisation:
  "(truthy v \<and> (\<forall>d. v \<noteq> JDate d) \<and> Number_of P (ToString P v) \<noteq> NaN \<longrightarrow>
      parsedDate_of P v = Inr (Some (TimeClip (serial_to_ms (Number_of P (ToString P v)))))
      \<and> parsedDate_of (P\<lparr>Date_parse := f\<rparr>) v = parsedDate_of P v)
   \<and> (truthy v \<and> (\<forall>d. v \<noteq> JDate d) \<and> Number_of P (ToString P v) = Num (of_int n)
        \<and> \<bar>n - 25569\<bar> \<le> 100000000 \<longrightarrow>
      parsedDate_of P v = Inr (Some (Some (serial_day n * msPerDay)))
      \<and> utc_date (serial_day n * msPerDay) = civil_from_days (serial_day n))
   \<and> civil_from_days (serial_day 0) = (1899, 12, 30)
   \<and> (Number_of P (num_toString P (Num 44197)) = Num 44197 \<longrightarrow>
      parsedDate_of P (JNum (Num 44197)) = Inr (Some (Some 1609459200000))
      \<and> utc_date 1609459200000 = (2021, 1, 1))
   \<and> (x \<noteq> 0 \<and> \<bar>x\<bar> \<le> 8640000000000000 \<longrightarrow>
      parseDateMaybe P (JNum (Num x)) = Inr (Some (Some (trunc x))))"
proof -
  have a: "parsedDate_of P v = Inr (Some (TimeClip (serial_to_ms (Number_of P (ToString P v)))))
      \<and> parsedDate_of (P\<lparr>Date_parse := f\<rparr>) v = parsedDate_of P v"
    if "truthy v" "\<forall>d. v \<noteq> JDate d" "Number_of P (ToString P v) \<noteq> NaN"
    using parsedDate_of_number[of v P] parsedDate_of_number[of v "P\<lparr>Date_parse := f\<rparr>"] that
    by simp
  have b: "parsedDate_of P v = Inr (Some (Some (serial_day n * msPerDay)))
      \<and> utc_date (serial_day n * msPerDay) = civil_from_days (serial_day n)"
    if "truthy v" "\<forall>d. v \<noteq> JDate d" "Number_of P (ToString P v) = Num (of_int n)"
      "\<bar>n - 25569\<bar> \<le> 100000000"
    using parsedDate_of_serial[OF that] by (simp add: utc_date_whole_day)
  have c: "civil_from_days (serial_day 0) = (1899, 12, 30)" by code_simp
  have u: "utc_date 1609459200000 = (2021, 1, 1)" by code_simp
  have d: "parsedDate_of P (JNum (Num 44197)) = Inr (Some (Some 1609459200000))
      \<and> utc_date 1609459200000 = (2021, 1, 1)"
    if h: "Number_of P (num_toString P (Num 44197)) = Num 44197"
  proof -
    have "parsedDate_of P (JNum (Num 44197)) = Inr (Some (Some (serial_day 44197 * msPerDay)))"
      using parsedDate_of_serial[of "JNum (Num 44197)" P 44197] h
      by (simp add: truthy_def ToString_def)
    then show ?thesis using u by (simp add: serial_day_def serial_epoch msPerDay_def)
  qed
  have e: "parseDateMaybe P (JNum (Num x)) = Inr (Some (Some (trunc x)))"
    if "x \<noteq> 0" "\<bar>x\<bar> \<le> 8640000000000000"
    using that by (rule parseDateMaybe_number)
  show ?thesis using a b c d e by blast
qed

lemma ref_Number_44197: "Number_of ref_platform ''44197'' = Num 44197"
proof -
  have "trim ''44197'' = ''44197''" by code_simp
  moreover have "list_all isDigit ''44197''" by code_simp
  moreover have "parseInt10 ''44197'' = 44197" by code_simp
  ultimately show ?thesis by (simp add: ref_platform_def ref_Number_def)
qed

lemma ref_toString_44197: "num_toString ref_platform (Num 44197) = ''44197''"
proof -
  have "show_int 44197 = ''44197''" by code_simp
  then show ?thesis by (simp add: ref_platform_def ref_num_toString_def)
qed

theorem serial_date_normalisation_witness:
  "truthy (JStr ''44197'') \<and> Number_of ref_platform (ToString ref_platform (JStr ''44197'')) = Num 44197
   \<and> parsedDate_of ref_platform (JStr ''44197'') = Inr (Some (Some (serial_day 44197 * msPerDay)))
   \<and> parsedDate_of (ref_platform\<lparr>Date_parse := (\<lambda>s. Some 0)\<rparr>) (JStr ''44197'')
       = parsedDate_of ref_platform (JStr ''44197'')
   \<and> Number_of ref_platform (num_toString ref_platform (Num 44197)) = Num 44197
   \<and> parsedDate_of ref_platform (JNum (Num 44197)) = Inr (Some (Some 1609459200000))
   \<and> parseDateMaybe ref_platform (JNum (Num 1609459200000)) = Inr (Some (Some 1609459200000))"
proof -
  have t: "truthy (JStr ''44197'')" "\<forall>d. JStr ''44197'' \<noteq> JDate d" by (simp_all add: truthy_def)
  have n: "Number_of ref_platform (ToString ref_platform (JStr ''44197'')) = Num (of_int 44197)"
    using ref_Number_44197 by (simp add: ToString_def)
  have rt: "Number_of ref_platform (num_toString ref_platform (Num 44197)) = Num 44197"
    by (simp add: ref_toString_44197 ref_Number_44197)
  note inst = serial_date_normalisation[of "JStr ''44197''" ref_platform "\<lambda>s. Some 0" 44197
      1609459200000]
  have nn: "Number_of ref_platform (ToString ref_platform (JStr ''44197'')) \<noteq> NaN"
    using n by simp
  have rg: "\<bar>44197 - 25569 :: int\<bar> \<le> 100000000" by simp
  from inst[THEN conjunct1] t nn
  have r2: "parsedDate_of (ref_platform\<lparr>Date_parse := (\<lambda>s. Some 0)\<rparr>) (JStr ''44197'')
       = parsedDate_of ref_platform (JStr ''44197'')" by blast
  from inst[THEN conjunct2, THEN conjunct1] t n rg
  have r1: "parsedDate_of ref_platform (JStr ''44197'') = Inr (Some (Some (serial_day 44197 * msPerDay)))"
    by blast
  from inst[THEN conjunct2, THEN conjunct2, THEN conjunct2, THEN conjunct1] rt
  have r3: "parsedDate_of ref_platform (JNum (Num 44197)) = Inr (Some (Some 1609459200000))"
    by blast
  have "trunc 1609459200000 = 1609459200000" by (simp add: trunc_def)
  with inst[THEN conjunct2, THEN conjunct2, THEN conjunct2, THEN conjunct2]
  have r4: "parseDateMaybe ref_platform (JNum (Num 1609459200000)) = Inr (Some (Some 1609459200000))"
    by simp
  show ?thesis using t n rt r1 r2 r3 r4 by simp
qed

text \<open>The claim as stated fails for the script: the numeric cell 44197 becomes the
  instant 44197 milliseconds after the epoch, on 1970-01-01. And in the React component
  the numeric cell 0 is not read as serial 0: it is falsy, and its date is
  \<^verbatim>\<open>null\<close>.\<close>

theorem serial_date_counterexample:
  "parseDateMaybe ref_platform (JNum (Num 44197)) = Inr (Some (Some 44197))
   \<and> utc_date 44197 = (1970, 1, 1)
   \<and> parsedDate_of ref_platform (JNum (Num 0)) = Inr None"
proof -
  have "parseDateMaybe ref_platform (JNum (Num 44197)) = Inr (Some (Some (trunc 44197)))"
    by (rule parseDateMaybe_number) simp_all
  moreover have "utc_date 44197 = (1970, 1, 1)" by code_simp
  moreover have "parsedDate_of ref_platform (JNum (Num 0)) = Inr None"
    by (simp add: parsedDate_of_def truthy_def)
  ultimately show ?thesis by (simp add: trunc_def)
qed

section \<open>Date normalisation\<close>

lemma parseDateMaybe_cases:
  "parseDateMaybe P v =
     (if \<not> truthy v then Inr None
      else if (\<exists>t. v = JDate (Some t)) then Inr (Some (new_Date P v))
      else if new_Date P v \<noteq> None then Inr (Some (new_Date P v))
      else (case regex_dmy (ToString P v) of
              None \<Rightarrow> Inr None
            | Some (p1, p2, p3) \<Rightarrow>
                Inr (Some (new_Date_local P
                  (if parseInt10 p3 < 100 then 2000 + parseInt10 p3 else parseInt10 p3)
                  (parseInt10 p2 - 1) (parseInt10 p1)))))"
proof (cases "truthy v")
  case False
  then show ?thesis by (simp add: parseDateMaybe_def)
next
  case True
  show ?thesis
  proof (cases "\<exists>t. v = JDate (Some t)")
    case True
    then show ?thesis by (auto simp: parseDateMaybe_def truthy_def new_Date_def)
  next
    case False
    then have "\<not> (case v of JDate (Some t) \<Rightarrow> True | _ \<Rightarrow> False)"
      by (auto split: jsval.splits option.splits)
    then show ?thesis using \<open>truthy v\<close> False
      by (simp add: parseDateMaybe_def toString_method_truthy Let_def
          split: option.splits prod.splits)
  qed
qed

lemma parsedDate_of_cases:
  "parsedDate_of P v =
     (if \<not> truthy v then Inr None
      else if (\<exists>d. v = JDate d) then Inr (Some (new_Date P v))
      else if Number_of P (ToString P v) \<noteq> NaN
        then Inr (Some (TimeClip (serial_to_ms (Number_of P (ToString P v)))))
      else (case Date_parse P (ToString P v) of
              None \<Rightarrow> Inr None
            | Some t \<Rightarrow> Inr (Some (Some t))))"
proof (cases "truthy v")
  case False
  then show ?thesis by (simp add: parsedDate_of_def)
next
  case True
  then show ?thesis
    by (cases v)
      (auto simp: parsedDate_of_def toString_method_truthy isNaN_num_def Let_def new_Date_def
        split: option.splits)
qed

lemma classify_null: "classify P today None paid' = Inr (None, False)"
  by (simp add: classify_def)

lemma handleFile_row_fields:
  assumes "handleFile_row P today colMap r i = Inr x"
  shows "parsedDate_of P (rawDate_of colMap r) = Inr (rawInvoiceDate x)
     \<and> classify P today (rawInvoiceDate x) (paid x) = Inr (days x, overdue x)"
  using assms unfolding handleFile_row_def Let_def
  by (auto split: sum.splits prod.splits option.splits)

lemma app_row_of_fields:
  assumes "app_row_of P daysLimit today amap r i = Inr x"
  shows "\<exists>dt. parseDateMaybe P (app_rawDate_of amap r) = Inr dt
     \<and> a_days x = app_days today dt \<and> a_overdue x = app_overdue (a_days x) daysLimit"
  using assms unfolding app_row_of_def Let_def
  by (auto split: sum.splits option.splits)

lemma rows_from_member:
  "rows_from P clock colMap json i = Inr parsed \<Longrightarrow> x \<in> set parsed \<Longrightarrow>
     \<exists>k r. r \<in> set json \<and> handleFile_row P (clock k) colMap r k = Inr x"
proof (induction json arbitrary: i parsed)
  case Nil
  then show ?case by simp
next
  case (Cons r rs)
  from Cons.prems(1) obtain y ys where y: "handleFile_row P (clock i) colMap r i = Inr y"
    and ys: "rows_from P clock colMap rs (Suc i) = Inr ys" and p: "parsed = y # ys"
    by (auto split: sum.splits)
  show ?case
  proof (cases "x = y")
    case True
    then show ?thesis using y by auto
  next
    case False
    then have "x \<in> set ys" using Cons.prems(2) p by simp
    from Cons.IH[OF ys this] show ?thesis by auto
  qed
qed

lemma app_rows_from_member:
  "app_rows_from P daysLimit clock amap json i = Inr parsed \<Longrightarrow> x \<in> set parsed \<Longrightarrow>
     \<exists>k r. r \<in> set json \<and> app_row_of P daysLimit (clock k) amap r k = Inr x"
proof (induction json arbitrary: i parsed)
  case Nil
  then show ?case by simp
next
  case (Cons r rs)
  from Cons.prems(1) obtain y ys where y: "app_row_of P daysLimit (clock i) amap r i = Inr y"
    and ys: "app_rows_from P daysLimit clock amap rs (Suc i) = Inr ys" and p: "parsed = y # ys"
    by (auto split: sum.splits)
  show ?case
  proof (cases "x = y")
    case True
    then show ?thesis using y by auto
  next
    case False
    then have "x \<in> set ys" using Cons.prems(2) p by simp
    from Cons.IH[OF ys this] show ?thesis by auto
  qed
qed

lemma handleFile_fresh:
  assumes "x \<in> set (handleFile P clock [] json)"
  shows "\<exists>cm parsed. rows_from P clock cm json 0 = Inr parsed \<and> x \<in> set parsed"
proof (cases json)
  case Nil
  with assms show ?thesis by (simp add: handleFile_def)
next
  case (Cons first rest)
  show ?thesis
  proof (cases "rows_from P clock (mapColumns (map fst first)) json 0")
    case (Inl e)
    with assms Cons show ?thesis by (simp add: handleFile_def del: rows_from.simps)
  next
    case (Inr parsed)
    with assms Cons have "x \<in> set parsed" by (simp add: handleFile_def del: rows_from.simps)
    with Inr show ?thesis by blast
  qed
qed

lemma parseClick_fresh:
  assumes "y \<in> set (parseClick P clock limitText [] json)"
  shows "\<exists>am parsed. app_rows_from P (daysLimit_of P limitText) clock am json 0 = Inr parsed
     \<and> y \<in> set parsed"
proof (cases json)
  case Nil
  with assms show ?thesis by (simp add: parseClick_def)
next
  case (Cons first rest)
  show ?thesis
  proof (cases "app_rows_from P (daysLimit_of P limitText) clock (app_map (map fst first)) json 0")
    case (Inl e)
    with assms Cons show ?thesis by (simp add: parseClick_def del: app_rows_from.simps)
  next
    case (Inr parsed)
    with assms Cons have "y \<in> set parsed"
      by (simp add: parseClick_def del: app_rows_from.simps)
    with Inr show ?thesis by blast
  qed
qed

text \<open>
  The two normalisers themselves return for every cell value, also for
  \<^verbatim>\<open>undefined\<close> and \<^verbatim>\<open>null\<close>. The script returns \<^verbatim>\<open>null\<close> when the value is
  falsy, or is no valid date object, \<^verbatim>\<open>new Date\<close> gives an invalid date and the
  day/month/year pattern does not match. The React component returns \<^verbatim>\<open>null\<close> only
  when the value is falsy, or is no date object, its text is no number and
  \<^verbatim>\<open>Date.parse\<close> gives \<open>NaN\<close>: a date object is kept and a number is converted
  without a test of the date that results, which may be invalid. A row whose date is
  \<^verbatim>\<open>null\<close> has a \<^verbatim>\<open>null\<close> age and is not overdue.
\<close>

lemma date_normalisation_cases:
  "(\<exists>d. parseDateMaybe P v = Inr d)
   \<and> (\<exists>d. parsedDate_of P v = Inr d)
   \<and> (parseDateMaybe P v = Inr None \<longleftrightarrow>
        \<not> truthy v \<or> ((\<forall>t. v \<noteq> JDate (Some t)) \<and> new_Date P v = None
                       \<and> regex_dmy (ToString P v) = None))
   \<and> (parsedDate_of P v = Inr None \<longleftrightarrow>
        \<not> truthy v \<or> ((\<forall>d. v \<noteq> JDate d) \<and> Number_of P (ToString P v) = NaN
                       \<and> Date_parse P (ToString P v) = None))
   \<and> classify P today None pd = Inr (None, False)
   \<and> classify P today (Some None) pd = Inr (Some NaN, False)
   \<and> app_days today None = None
   \<and> app_overdue None daysLimit = False
   \<and> (handleFile_row P today colMap r i = Inr x \<and> parsedDate_of P (rawDate_of colMap r) = Inr None
        \<longrightarrow> rawInvoiceDate x = None \<and> days x = None \<and> \<not> overdue x)
   \<and> (app_row_of P daysLimit today amap r i = Inr y
        \<and> parseDateMaybe P (app_rawDate_of amap r) = Inr None
        \<longrightarrow> a_days y = None \<and> \<not> a_overdue y)"
proof -
  have a: "\<exists>d. parseDateMaybe P v = Inr d"
    by (simp add: parseDateMaybe_cases split: option.splits prod.splits)
  have b: "\<exists>d. parsedDate_of P v = Inr d"
    by (simp add: parsedDate_of_cases split: option.splits)
  have c: "parseDateMaybe P v = Inr None \<longleftrightarrow>
        \<not> truthy v \<or> ((\<forall>t. v \<noteq> JDate (Some t)) \<and> new_Date P v = None
                       \<and> regex_dmy (ToString P v) = None)"
    by (auto simp: parseDateMaybe_cases split: option.splits prod.splits)
  have d: "parsedDate_of P v = Inr None \<longleftrightarrow>
        \<not> truthy v \<or> ((\<forall>d. v \<noteq> JDate d) \<and> Number_of P (ToString P v) = NaN
                       \<and> Date_parse P (ToString P v) = None)"
    by (auto simp: parsedDate_of_cases split: option.splits)
  have e: "classify P today None pd = Inr (None, False)" by (rule classify_null)
  have e': "classify P today (Some None) pd = Inr (Some NaN, False)"
    by (simp add: classify_def differenceInCalendarDays_def)
  have f: "app_days today None = None" "app_overdue None daysLimit = False"
    by (simp_all add: app_days_def app_overdue_def)
  have g: "rawInvoiceDate x = None \<and> days x = None \<and> \<not> overdue x"
    if "handleFile_row P today colMap r i = Inr x" "parsedDate_of P (rawDate_of colMap r) = Inr None"
  proof -
    from handleFile_row_fields[OF that(1)]
    have p: "parsedDate_of P (rawDate_of colMap r) = Inr (rawInvoiceDate x)"
      and c: "classify P today (rawInvoiceDate x) (paid x) = Inr (days x, overdue x)" by blast+
    from p that(2) have n: "rawInvoiceDate x = None" by simp
    from c show ?thesis unfolding n classify_null by simp
  qed
  have h: "a_days y = None \<and> \<not> a_overdue y"
    if "app_row_of P daysLimit today amap r i = Inr y"
       "parseDateMaybe P (app_rawDate_of amap r) = Inr None"
    using app_row_of_fields[OF that(1)] that(2) by (auto simp: app_days_def app_overdue_def)
  show ?thesis using a b c d e e' f g h by blast
qed

lemma date_normalisation_cases_example:
  "handleFile_row ref_platform example_today (mapColumns (map fst example_sheet_row_undated))
       example_sheet_row_undated 0 = Inr example_row_undated
   \<and> parsedDate_of ref_platform
       (rawDate_of (mapColumns (map fst example_sheet_row_undated)) example_sheet_row_undated)
       = Inr None
   \<and> days example_row_undated = None \<and> \<not> overdue example_row_undated
   \<and> app_row_of ref_platform (Num 30) example_today (app_map (map fst example_sheet_row_undated))
       example_sheet_row_undated 0 = Inr example_app_row_undated
   \<and> parseDateMaybe ref_platform
       (app_rawDate_of (app_map (map fst example_sheet_row_undated)) example_sheet_row_undated)
       = Inr None
   \<and> a_days example_app_row_undated = None \<and> \<not> a_overdue example_app_row_undated
   \<and> parseDateMaybe ref_platform Undefined = Inr None
   \<and> parsedDate_of ref_platform Null = Inr None"
proof -
  let ?cm = "mapColumns (map fst example_sheet_row_undated)"
  let ?am = "app_map (map fst example_sheet_row_undated)"
  have r1: "handleFile_row ref_platform example_today ?cm example_sheet_row_undated 0
      = Inr example_row_undated" by code_simp
  have r2: "app_row_of ref_platform (Num 30) example_today ?am example_sheet_row_undated 0
      = Inr example_app_row_undated" by code_simp
  have raw1: "rawDate_of ?cm example_sheet_row_undated = JStr ''n/a''" by code_simp
  have raw2: "app_rawDate_of ?am example_sheet_row_undated = JStr ''n/a''" by code_simp
  have n1: "Number_of ref_platform ''n/a'' = NaN" by code_simp
  have n2: "Date_parse ref_platform ''n/a'' = None" by code_simp
  have n3: "regex_dmy ''n/a'' = None" by code_simp
  note inst = date_normalisation_cases[of ref_platform "JStr ''n/a''" example_today "JStr []"
      "Num 30" ?cm example_sheet_row_undated 0 example_row_undated ?am example_app_row_undated]
  have p1: "parsedDate_of ref_platform (JStr ''n/a'') = Inr None"
    using inst[THEN conjunct2, THEN conjunct2, THEN conjunct2, THEN conjunct1] n1 n2
    by (simp add: ToString_def)
  have p2: "parseDateMaybe ref_platform (JStr ''n/a'') = Inr None"
    using inst[THEN conjunct2, THEN conjunct2, THEN conjunct1] n2 n3
    by (simp add: ToString_def new_Date_def)
  from inst r1 p1 raw1 have q1: "days example_row_undated = None \<and> \<not> overdue example_row_undated"
    by simp
  from inst r2 p2 raw2 have q2: "a_days example_app_row_undated = None \<and> \<not> a_overdue example_app_row_undated"
    by simp
  have u1: "parseDateMaybe ref_platform Undefined = Inr None"
    using date_normalisation_cases[of ref_platform Undefined, THEN conjunct2, THEN conjunct2,
        THEN conjunct1] by (simp add: truthy_def)
  have u2: "parsedDate_of ref_platform Null = Inr None"
    using date_normalisation_cases[of ref_platform Null, THEN conjunct2, THEN conjunct2,
        THEN conjunct2, THEN conjunct1] by (simp add: truthy_def)
  show ?thesis using r1 r2 raw1 raw2 p1 p2 q1 q2 u1 u2 by simp
qed

lemma ref_timestamp_round_trip:
  "Number_of ref_platform (num_toString ref_platform (Num 1609459200000)) = Num 1609459200000"
proof -
  have "\<lfloor>1609459200000 :: real\<rfloor> = 1609459200000" by simp
  then have "num_toString ref_platform (Num 1609459200000) = show_int 1609459200000"
    by (simp add: ref_platform_def ref_num_toString_def)
  moreover have "show_int 1609459200000 = ''1609459200000''" by code_simp
  moreover have "ref_Number ''1609459200000'' = Num (of_int 1609459200000)" by code_simp
  ultimately show ?thesis by (simp add: ref_platform_def)
qed

lemma timestamp_serial_invalid:
  "TimeClip (serial_to_ms (Num 1609459200000)) = None"
  by (simp add: TimeClip_def serial_to_ms_def)

lemma parsedDate_of_timestamp:
  "parsedDate_of ref_platform (JNum (Num 1609459200000)) = Inr (Some None)"
  by (simp add: parsedDate_of_def truthy_def toString_method_def ToString_def
      ref_timestamp_round_trip isNaN_num_def timestamp_serial_invalid)

lemma rawDate_of_timestamp:
  "rawDate_of (mapColumns (map fst example_sheet_row)) example_sheet_row_timestamp
     = JNum (Num 1609459200000)"
  by code_simp

lemma handleFile_row_invalid:
  assumes "parsedDate_of P (rawDate_of colMap r) = Inr (Some None)"
  shows "handleFile_row P today colMap r i = Inl RangeError"
  using assms
  by (simp add: handleFile_row_def Let_def classify_def differenceInCalendarDays_def
      format_ymd_def)

text \<open>
  Claim C7 fails on the React component. A date cell that holds the number
  1609459200000 (the Unix time of 2021-01-01 in milliseconds) is read as a serial day
  count, which lies beyond the range of dates: the normalised date is not
  \<^verbatim>\<open>null\<close> but an invalid date object, as it is for a date cell that is itself an
  invalid date. \<^verbatim>\<open>format\<close> then throws a \<^verbatim>\<open>RangeError\<close> on that row, and
  \<^verbatim>\<open>handleFile\<close> catches it and keeps the rows it had: the whole sheet is dropped,
  also the dated row before the failing one, which is imported when the sheet holds
  nothing else. The script reads the same cell as a valid date and imports both rows of
  the sheet.
\<close>

theorem date_normalisation_invalid_date:
  "parsedDate_of ref_platform (JNum (Num 1609459200000)) = Inr (Some None)
   \<and> parsedDate_of ref_platform (JDate None) = Inr (Some None)
   \<and> handleFile_row ref_platform example_today (mapColumns (map fst example_sheet_row))
        example_sheet_row_timestamp 1 = Inl RangeError
   \<and> handleFile ref_platform (\<lambda>k. example_today) [example_row] example_sheet_timestamp
        = [example_row]
   \<and> handleFile ref_platform (\<lambda>k. example_today) [example_row] [example_sheet_row]
        = [example_row_paid]
   \<and> parseDateMaybe ref_platform (JNum (Num 1609459200000)) = Inr (Some (Some 1609459200000))
   \<and> parseClick ref_platform (\<lambda>k. example_today) ''30'' [] example_sheet_timestamp
        = [example_app_row, example_app_row_timestamp]"
proof -
  let ?cm = "mapColumns (map fst example_sheet_row)"
  have a: "parsedDate_of ref_platform (JNum (Num 1609459200000)) = Inr (Some None)"
    by (rule parsedDate_of_timestamp)
  have b: "parsedDate_of ref_platform (JDate None) = Inr (Some None)"
    by (simp add: parsedDate_of_def truthy_def)
  have c: "handleFile_row ref_platform example_today ?cm example_sheet_row_timestamp 1
      = Inl RangeError"
    by (rule handleFile_row_invalid) (simp add: rawDate_of_timestamp parsedDate_of_timestamp)
  have first: "handleFile_row ref_platform example_today ?cm example_sheet_row 0
      = Inr example_row_paid"
    by code_simp
  have d: "handleFile ref_platform (\<lambda>k. example_today) [example_row] example_sheet_timestamp
      = [example_row]"
    using first c by (simp add: handleFile_def example_sheet_timestamp_def)
  have e: "handleFile ref_platform (\<lambda>k. example_today) [example_row] [example_sheet_row]
      = [example_row_paid]"
    using first by (simp add: handleFile_def)
  have f: "parseDateMaybe ref_platform (JNum (Num 1609459200000))
      = Inr (Some (Some 1609459200000))"
    by (simp add: parseDateMaybe_def truthy_def new_Date_def TimeClip_def trunc_def)
  have g: "parseClick ref_platform (\<lambda>k. example_today) ''30'' [] example_sheet_timestamp
      = [example_app_row, example_app_row_timestamp]"
    by code_simp
  show ?thesis using a b c d e f g by blast
qed

section \<open>The age in days\<close>

lemma round_near_multiple:
  fixes k e :: int
  assumes "2 * \<bar>e\<bar> < msPerDay"
  shows "round (of_int (k * msPerDay + e) / of_int msPerDay :: real) = k"
proof -
  have e: "- 43200000 < e" "e < 43200000" using assms by (simp_all add: msPerDay_def)
  have q: "(of_int (k * msPerDay + e) / of_int msPerDay :: real)
      = of_int k + of_int e / 86400000"
    by (simp add: msPerDay_def field_simps)
  have lo: "(- 43200000 :: real) < of_int e" using e(1) by linarith
  have hi: "(of_int e :: real) < 43200000" using e(2) by linarith
  have "\<lfloor>of_int k + of_int e / 86400000 + 1 / 2 :: real\<rfloor> = k"
  proof (rule floor_unique)
    show "of_int k \<le> (of_int k + of_int e / 86400000 + 1 / 2 :: real)" using lo by simp
    show "(of_int k + of_int e / 86400000 + 1 / 2 :: real) < of_int k + 1" using hi by simp
  qed
  then show ?thesis unfolding q round_def .
qed

lemma abs_diff_small:
  fixes u v d :: int
  assumes "4 * \<bar>u\<bar> < d" and "4 * \<bar>v\<bar> < d"
  shows "2 * \<bar>u - v\<bar> < d"
proof -
  have "\<bar>u - v\<bar> \<le> \<bar>u\<bar> + \<bar>v\<bar>" by (rule abs_triangle_ineq4)
  then have "4 * \<bar>u - v\<bar> \<le> 4 * \<bar>u\<bar> + 4 * \<bar>v\<bar>" by simp
  also have "\<dots> < 2 * d" using assms by simp
  finally show ?thesis by simp
qed

lemma regular_day_startD:
  assumes "regular_day_start P t"
  obtains s where "startOfDay P t = Some s"
    and "4 * \<bar>local_time P s - (local_time P t div msPerDay) * msPerDay\<bar> < msPerDay"
  using assms unfolding regular_day_start_def by (auto split: option.splits)

text \<open>The start of a local day is regular whenever the midnight of that day exists in
  the zone, so that it is the local time of its own instant, and that instant is within
  the range of dates.\<close>

lemma regular_day_start_midnight:
  assumes "local_time P (utc_of_local P ((local_time P t div msPerDay) * msPerDay))
      = (local_time P t div msPerDay) * msPerDay"
    and "\<bar>utc_of_local P ((local_time P t div msPerDay) * msPerDay)\<bar> \<le> 8640000000000000"
  shows "regular_day_start P t"
proof -
  let ?s = "utc_of_local P ((local_time P t div msPerDay) * msPerDay)"
  from assms(2) have "\<bar>of_int ?s :: real\<bar> \<le> 8640000000000000"
    by (metis of_int_abs of_int_le_iff of_int_numeral)
  then have "startOfDay P t = Some ?s"
    by (simp add: startOfDay_def TimeClip_def trunc_of_int)
  then show ?thesis using assms(1) by (simp add: regular_day_start_def msPerDay_def)
qed

lemma timestamp_local: "s - getTimezoneOffsetInMilliseconds P s = local_time P s"
  by (simp add: getTimezoneOffsetInMilliseconds_def)

lemma differenceInCalendarDays_valid:
  assumes "regular_day_start P a" and "regular_day_start P b"
  shows "differenceInCalendarDays P (Some a) (Some b) = Num (of_int (calendar_day_diff (tz P) a b))"
proof -
  let ?x = "local_time P a div msPerDay" and ?y = "local_time P b div msPerDay"
  from assms(1) obtain sa where sa: "startOfDay P a = Some sa"
    and ea: "4 * \<bar>local_time P sa - ?x * msPerDay\<bar> < msPerDay"
    by (rule regular_day_startD)
  from assms(2) obtain sb where sb: "startOfDay P b = Some sb"
    and eb: "4 * \<bar>local_time P sb - ?y * msPerDay\<bar> < msPerDay"
    by (rule regular_day_startD)
  define u where "u = local_time P sa - ?x * msPerDay"
  define v where "v = local_time P sb - ?y * msPerDay"
  define e where "e = u - v"
  from ea eb have "4 * \<bar>u\<bar> < msPerDay" "4 * \<bar>v\<bar> < msPerDay" by (simp_all add: u_def v_def)
  then have small: "2 * \<bar>e\<bar> < msPerDay" unfolding e_def by (rule abs_diff_small)
  have "local_time P sa - local_time P sb = (?x - ?y) * msPerDay + e"
    unfolding e_def u_def v_def by (simp add: left_diff_distrib)
  then have "round (of_int (local_time P sa - local_time P sb) / of_int msPerDay :: real) = ?x - ?y"
    using round_near_multiple[OF small, of "?x - ?y"] by simp
  then show ?thesis
    by (simp add: differenceInCalendarDays_def sa sb timestamp_local calendar_day_diff_def
        local_time_def)
qed

lemma differenceInCalendarDays_same_day:
  assumes "local_time P a div msPerDay = local_time P a' div msPerDay"
  shows "differenceInCalendarDays P (Some a') d = differenceInCalendarDays P (Some a) d"
proof -
  have "startOfDay P a' = startOfDay P a" using assms by (simp add: startOfDay_def)
  then show ?thesis by (cases d) (simp_all add: differenceInCalendarDays_def)
qed

lemma app_days_valid:
  "app_days today (Some (Some t)) = Some (Num (of_int ((today - t) div msPerDay)))"
proof -
  have "\<lfloor>of_int (today - t) / of_int (1000 * 60 * 60 * 24) :: real\<rfloor> = (today - t) div (1000 * 60 * 60 * 24)"
    by (rule floor_divide_of_int_eq)
  then show ?thesis by (simp add: app_days_def msPerDay_def)
qed

lemma elapsed_days_midnight:
  assumes "t mod msPerDay = 0"
  shows "(today - t) div msPerDay = calendar_day_diff (\<lambda>u. 0) today t"
proof -
  from assms have "msPerDay dvd t" by (simp add: dvd_eq_mod_eq_0)
  then obtain k where k: "t = k * msPerDay" by (auto simp: dvd_def mult.commute)
  have nz: "msPerDay \<noteq> 0" by (simp add: msPerDay_def)
  have "(today + (- k) * msPerDay) div msPerDay = - k + today div msPerDay"
    using nz by (rule div_mult_self1)
  then have "(today - k * msPerDay) div msPerDay = today div msPerDay - k" by simp
  then show ?thesis unfolding k calendar_day_diff_def using nz by simp
qed

text \<open>
  Claim C5, as the code has it. For a row with a valid invoice date, the React component
  takes as age the calendar-day difference between today and the invoice date in local
  time, each of the two dates taken with the zone offset in force at it, so that a
  change to or from daylight saving between them is accounted for; this holds whenever
  the start of the local day of both dates is regular, that is, a date in range whose
  local time is less than six hours from 00:00. The age depends on the local day of
  today only, not on the time of day. The script takes the whole days of the elapsed
  time, \<^verbatim>\<open>Math.floor((today - dt) / 86400000)\<close>, which is the calendar-day
  difference in UTC when the invoice date is at midnight UTC. Every record an import
  makes of a sheet has its age computed in this way, with the instant at which its row
  was read as today.
\<close>

theorem age_in_days:
  "(handleFile_row P today colMap r i = Inr x \<and> rawInvoiceDate x = Some (Some t)
      \<and> regular_day_start P today \<and> regular_day_start P t \<longrightarrow>
      days x = Some (Num (of_int (calendar_day_diff (tz P) today t))))
   \<and> (regular_day_start P today \<and> regular_day_start P t \<longrightarrow>
        differenceInCalendarDays P (Some today) (Some t)
          = Num (of_int (calendar_day_diff (tz P) today t)))
   \<and> (local_time P today div msPerDay = local_time P today' div msPerDay \<longrightarrow>
        differenceInCalendarDays P (Some today') (Some t)
          = differenceInCalendarDays P (Some today) (Some t))
   \<and> (app_row_of P daysLimit today amap r i = Inr y
        \<and> parseDateMaybe P (app_rawDate_of amap r) = Inr (Some (Some t)) \<longrightarrow>
      a_days y = Some (Num (of_int ((today - t) div msPerDay))))
   \<and> (t mod msPerDay = 0 \<longrightarrow>
        app_days today (Some (Some t))
          = Some (Num (of_int (calendar_day_diff (\<lambda>u. 0) today t))))
   \<and> (rows_from P clock colMap json i = Inr parsed \<and> x \<in> set parsed
        \<and> rawInvoiceDate x = Some (Some t)
        \<and> (\<forall>k. regular_day_start P (clock k)) \<and> regular_day_start P t \<longrightarrow>
      (\<exists>k. days x = Some (Num (of_int (calendar_day_diff (tz P) (clock k) t)))))
   \<and> (app_rows_from P daysLimit clock amap json i = Inr aparsed \<and> y \<in> set aparsed \<longrightarrow>
      (\<exists>k r' dt. r' \<in> set json \<and> parseDateMaybe P (app_rawDate_of amap r') = Inr dt
          \<and> a_days y = app_days (clock k) dt))"
proof -
  have a: "days x = Some (Num (of_int (calendar_day_diff (tz P) today t)))"
    if h: "handleFile_row P today colMap r i = Inr x" "rawInvoiceDate x = Some (Some t)"
       "regular_day_start P today" "regular_day_start P t"
    for today r i
  proof -
    from handleFile_row_fields[OF h(1)] h(2)
    have "classify P today (Some (Some t)) (paid x) = Inr (days x, overdue x)" by simp
    then have "days x = Some (differenceInCalendarDays P (Some today) (Some t))"
      by (auto simp: classify_def Let_def split: if_splits sum.splits)
    then show ?thesis by (simp add: differenceInCalendarDays_valid[OF h(3,4)])
  qed
  have f: "\<exists>k. days x = Some (Num (of_int (calendar_day_diff (tz P) (clock k) t)))"
    if "rows_from P clock colMap json i = Inr parsed" "x \<in> set parsed"
       "rawInvoiceDate x = Some (Some t)" "\<forall>k. regular_day_start P (clock k)"
       "regular_day_start P t"
  proof -
    from rows_from_member[OF that(1,2)] obtain k r'
      where hk: "handleFile_row P (clock k) colMap r' k = Inr x" by blast
    from that(4) have "regular_day_start P (clock k)" by blast
    with hk that(3) have "days x = Some (Num (of_int (calendar_day_diff (tz P) (clock k) t)))"
      using that(5) by (rule a)
    then show ?thesis by blast
  qed
  have g: "\<exists>k r' dt. r' \<in> set json \<and> parseDateMaybe P (app_rawDate_of amap r') = Inr dt
          \<and> a_days y = app_days (clock k) dt"
    if "app_rows_from P daysLimit clock amap json i = Inr aparsed" "y \<in> set aparsed"
  proof -
    from app_rows_from_member[OF that] obtain k r'
      where r': "r' \<in> set json" and "app_row_of P daysLimit (clock k) amap r' k = Inr y" by blast
    from app_row_of_fields[OF this(2)] r' show ?thesis by blast
  qed
  have a0: "days x = Some (Num (of_int (calendar_day_diff (tz P) today t)))"
    if h: "handleFile_row P today colMap r i = Inr x" "rawInvoiceDate x = Some (Some t)"
       "regular_day_start P today" "regular_day_start P t"
    using h by (rule a)
  have b: "differenceInCalendarDays P (Some today) (Some t)
        = Num (of_int (calendar_day_diff (tz P) today t))"
    if "regular_day_start P today" "regular_day_start P t"
    using that by (rule differenceInCalendarDays_valid)
  have c: "differenceInCalendarDays P (Some today') (Some t)
          = differenceInCalendarDays P (Some today) (Some t)"
    if "local_time P today div msPerDay = local_time P today' div msPerDay"
    using that by (rule differenceInCalendarDays_same_day)
  have d: "a_days y = Some (Num (of_int ((today - t) div msPerDay)))"
    if h: "app_row_of P daysLimit today amap r i = Inr y"
       "parseDateMaybe P (app_rawDate_of amap r) = Inr (Some (Some t))"
    using app_row_of_fields[OF h(1)] h(2) by (auto simp: app_days_valid)
  have e: "app_days today (Some (Some t))
      = Some (Num (of_int (calendar_day_diff (\<lambda>u. 0) today t)))"
    if "t mod msPerDay = 0"
    using elapsed_days_midnight[OF that] by (simp add: app_days_valid)
  show ?thesis using a0 b c d e f g by blast
qed

lemma example_row_paid_imported:
  "handleFile_row ref_platform example_today (mapColumns (map fst example_sheet_row))
     example_sheet_row 0 = Inr example_row_paid"
  by code_simp

lemma example_app_row_imported:
  "app_row_of ref_platform (Num 30) example_today (app_map (map fst example_sheet_row))
     example_sheet_row 0 = Inr example_app_row"
  by code_simp

lemma example_app_date:
  "parseDateMaybe ref_platform (app_rawDate_of (app_map (map fst example_sheet_row)) example_sheet_row)
     = Inr (Some (Some 1609459200000))"
  by code_simp

lemma example_row_eastern_imported:
  "handleFile_row eastern_platform example_eastern_today
     (mapColumns (map fst example_sheet_row_eastern)) example_sheet_row_eastern 0
     = Inr example_row_eastern"
  by code_simp

lemma example_app_row_eastern_imported:
  "app_row_of eastern_platform (Num 30) example_eastern_today
     (app_map (map fst example_sheet_row_eastern)) example_sheet_row_eastern 0
     = Inr example_app_row_eastern"
  by code_simp

lemma example_app_date_eastern:
  "parseDateMaybe eastern_platform
     (app_rawDate_of (app_map (map fst example_sheet_row_eastern)) example_sheet_row_eastern)
     = Inr (Some (Some 1609475400000))"
  by code_simp

lemma example_eastern_regular:
  "regular_day_start eastern_platform example_eastern_today"
  "regular_day_start eastern_platform 1609475400000"
  by code_simp+

text \<open>The theorem at work in the Eastern zone, across the change to daylight saving of
  March 2021: from 2020-12-31 at 23:30 local time to 2021-07-01 at 00:30 local time the
  React component counts 182 days, the difference of the two local dates, and the same
  an hour later; the script counts the 181 whole days that have elapsed. The last part
  is an invoice date at midnight UTC.\<close>

theorem age_in_days_witness:
  "handleFile_row eastern_platform example_eastern_today
       (mapColumns (map fst example_sheet_row_eastern)) example_sheet_row_eastern 0
       = Inr example_row_eastern
   \<and> rawInvoiceDate example_row_eastern = Some (Some 1609475400000)
   \<and> regular_day_start eastern_platform example_eastern_today
   \<and> regular_day_start eastern_platform 1609475400000
   \<and> days example_row_eastern
       = Some (Num (of_int (calendar_day_diff (tz eastern_platform) example_eastern_today
                              1609475400000)))
   \<and> calendar_day_diff (tz eastern_platform) example_eastern_today 1609475400000 = 182
   \<and> differenceInCalendarDays eastern_platform (Some example_eastern_today) (Some 1609475400000)
       = Num 182
   \<and> local_time eastern_platform example_eastern_today div msPerDay
       = local_time eastern_platform (example_eastern_today + 3600000) div msPerDay
   \<and> differenceInCalendarDays eastern_platform (Some (example_eastern_today + 3600000))
         (Some 1609475400000)
       = differenceInCalendarDays eastern_platform (Some example_eastern_today)
           (Some 1609475400000)
   \<and> app_row_of eastern_platform (Num 30) example_eastern_today
       (app_map (map fst example_sheet_row_eastern)) example_sheet_row_eastern 0
       = Inr example_app_row_eastern
   \<and> a_days example_app_row_eastern
       = Some (Num (of_int ((example_eastern_today - 1609475400000) div msPerDay)))
   \<and> (example_eastern_today - 1609475400000) div msPerDay = 181
   \<and> 1609459200000 mod msPerDay = 0
   \<and> app_days example_today (Some (Some 1609459200000))
       = Some (Num (of_int (calendar_day_diff (\<lambda>u. 0) example_today 1609459200000)))
   \<and> rows_from eastern_platform (\<lambda>k. example_eastern_today)
       (mapColumns (map fst example_sheet_row_eastern)) [example_sheet_row_eastern] 0
       = Inr [example_row_eastern]
   \<and> (\<exists>k. days example_row_eastern
         = Some (Num (of_int (calendar_day_diff (tz eastern_platform) example_eastern_today
                                1609475400000))))
   \<and> app_rows_from eastern_platform (Num 30) (\<lambda>k. example_eastern_today)
       (app_map (map fst example_sheet_row_eastern)) [example_sheet_row_eastern] 0
       = Inr [example_app_row_eastern]
   \<and> (\<exists>dt. parseDateMaybe eastern_platform
              (app_rawDate_of (app_map (map fst example_sheet_row_eastern))
                 example_sheet_row_eastern) = Inr dt
         \<and> a_days example_app_row_eastern = app_days example_eastern_today dt)"
proof -
  let ?cm = "mapColumns (map fst example_sheet_row_eastern)"
  let ?am = "app_map (map fst example_sheet_row_eastern)"
  have raw: "rawInvoiceDate example_row_eastern = Some (Some 1609475400000)"
    by (simp add: example_row_eastern_def example_row_def)
  have diff: "calendar_day_diff (tz eastern_platform) example_eastern_today 1609475400000 = 182"
    by code_simp
  have el: "(example_eastern_today - 1609475400000) div msPerDay = 181" by code_simp
  have same: "local_time eastern_platform example_eastern_today div msPerDay
       = local_time eastern_platform (example_eastern_today + 3600000) div msPerDay"
    by code_simp
  have mid: "1609459200000 mod msPerDay = 0" by code_simp
  note inst = age_in_days[where P = eastern_platform and today = example_eastern_today
      and colMap = ?cm and r = example_sheet_row_eastern and i = 0 and x = example_row_eastern
      and t = 1609475400000 and today' = "example_eastern_today + 3600000"
      and daysLimit = "Num 30" and amap = ?am and y = example_app_row_eastern
      and clock = "\<lambda>k. example_eastern_today" and json = "[example_sheet_row_eastern]"
      and parsed = "[example_row_eastern]" and aparsed = "[example_app_row_eastern]"]
  from inst[THEN conjunct1] example_row_eastern_imported raw example_eastern_regular
  have r1: "days example_row_eastern
       = Some (Num (of_int (calendar_day_diff (tz eastern_platform) example_eastern_today
                              1609475400000)))"
    by blast
  from inst[THEN conjunct2, THEN conjunct1] example_eastern_regular
  have "differenceInCalendarDays eastern_platform (Some example_eastern_today)
          (Some 1609475400000)
       = Num (of_int (calendar_day_diff (tz eastern_platform) example_eastern_today
                        1609475400000))"
    by blast
  then have r1': "differenceInCalendarDays eastern_platform (Some example_eastern_today)
          (Some 1609475400000) = Num 182"
    unfolding diff by simp
  from inst[THEN conjunct2, THEN conjunct2, THEN conjunct1] same
  have r2: "differenceInCalendarDays eastern_platform (Some (example_eastern_today + 3600000))
         (Some 1609475400000)
       = differenceInCalendarDays eastern_platform (Some example_eastern_today)
           (Some 1609475400000)"
    by blast
  from inst[THEN conjunct2, THEN conjunct2, THEN conjunct2, THEN conjunct1]
    example_app_row_eastern_imported example_app_date_eastern
  have r3: "a_days example_app_row_eastern
       = Some (Num (of_int ((example_eastern_today - 1609475400000) div msPerDay)))"
    by blast
  from age_in_days[where today = example_today and t = 1609459200000,
      THEN conjunct2, THEN conjunct2, THEN conjunct2, THEN conjunct2, THEN conjunct1] mid
  have r4: "app_days example_today (Some (Some 1609459200000))
       = Some (Num (of_int (calendar_day_diff (\<lambda>u. 0) example_today 1609459200000)))"
    by blast
  have l1: "rows_from eastern_platform (\<lambda>k. example_eastern_today) ?cm
      [example_sheet_row_eastern] 0 = Inr [example_row_eastern]"
    using example_row_eastern_imported by simp
  have l2: "app_rows_from eastern_platform (Num 30) (\<lambda>k. example_eastern_today) ?am
      [example_sheet_row_eastern] 0 = Inr [example_app_row_eastern]"
    using example_app_row_eastern_imported by simp
  from inst[THEN conjunct2, THEN conjunct2, THEN conjunct2, THEN conjunct2, THEN conjunct2,
      THEN conjunct1] l1 raw example_eastern_regular
  have r5: "\<exists>k. days example_row_eastern
         = Some (Num (of_int (calendar_day_diff (tz eastern_platform) example_eastern_today
                                1609475400000)))"
    by simp
  from inst[THEN conjunct2, THEN conjunct2, THEN conjunct2, THEN conjunct2, THEN conjunct2,
      THEN conjunct2] l2
  have r6: "\<exists>dt. parseDateMaybe eastern_platform (app_rawDate_of ?am example_sheet_row_eastern)
              = Inr dt
         \<and> a_days example_app_row_eastern = app_days example_eastern_today dt"
    by simp
  show ?thesis
    using example_row_eastern_imported raw example_eastern_regular r1 diff r1' same r2
      example_app_row_eastern_imported r3 el mid r4 l1 l2 r5 r6
    by blast
qed

text \<open>The claim as stated fails for the script. An invoice dated 1970-01-01 at noon UTC
  is a valid date; at 06:00 UTC on the next day its age is 0 and at 12:00 UTC of that
  same day its age is 1, while the calendar-day difference is 1 at both times.\<close>

theorem age_in_days_counterexample:
  "parseDateMaybe ref_platform (JDate (Some 43200000)) = Inr (Some (Some 43200000))
   \<and> app_days 108000000 (Some (Some 43200000)) = Some (Num 0)
   \<and> calendar_day_diff (\<lambda>u. 0) 108000000 43200000 = 1
   \<and> app_days 129600000 (Some (Some 43200000)) = Some (Num 1)
   \<and> calendar_day_diff (\<lambda>u. 0) 129600000 43200000 = 1"
proof -
  have a: "parseDateMaybe ref_platform (JDate (Some 43200000)) = Inr (Some (Some 43200000))"
    by (simp add: parseDateMaybe_def truthy_def)
  have b: "(108000000 - 43200000) div msPerDay = 0" "(129600000 - 43200000) div msPerDay = 1"
    by (simp_all add: msPerDay_def)
  have c: "calendar_day_diff (\<lambda>u. 0) 108000000 43200000 = 1"
    "calendar_day_diff (\<lambda>u. 0) 129600000 43200000 = 1"
    by (simp_all add: calendar_day_diff_def msPerDay_def)
  show ?thesis using a b c by (simp add: app_days_valid)
qed

section \<open>The overdue flag\<close>

lemma classify_overdue:
  assumes "classify P today pd pv = Inr (d, ov)"
  shows "ov \<longleftrightarrow> (\<exists>n. d = Some n \<and> js_gt n (Num 30)) \<and> isAffirmative P pv = Inr False"
proof (cases pd)
  case None
  with assms show ?thesis by (simp add: classify_def)
next
  case (Some dt)
  with assms show ?thesis
    by (auto simp: classify_def Let_def isAffirmative_eq split: if_splits)
qed

text \<open>
  Claim C1, as the code has it. In the React component a row is overdue if and only if
  its age is not \<^verbatim>\<open>null\<close>, the age is greater than 30, the threshold being this
  constant, and the paid flag is not affirmative as line 117 tests it. In the script a
  row is overdue if and only if its age is not \<^verbatim>\<open>null\<close> and greater than the
  day limit the user has set; the script reads no paid column. This holds for every
  record an import makes of a sheet, and so for every record in the state after a first
  import.
\<close>

theorem overdue_classification:
  "(handleFile_row P today colMap r i = Inr x \<longrightarrow>
      (overdue x \<longleftrightarrow> (\<exists>n. days x = Some n \<and> js_gt n (Num 30))
                    \<and> isAffirmative P (paid x) = Inr False))
   \<and> (classify P today pd pv = Inr (d, ov) \<longrightarrow>
      (ov \<longleftrightarrow> (\<exists>n. d = Some n \<and> js_gt n (Num 30)) \<and> isAffirmative P pv = Inr False))
   \<and> (app_row_of P daysLimit today amap r i = Inr y \<longrightarrow>
      (a_overdue y \<longleftrightarrow> (\<exists>n. a_days y = Some n \<and> js_gt n daysLimit)))
   \<and> (rows_from P clock colMap json i = Inr parsed \<and> x \<in> set parsed \<longrightarrow>
      (overdue x \<longleftrightarrow> (\<exists>n. days x = Some n \<and> js_gt n (Num 30))
                    \<and> isAffirmative P (paid x) = Inr False))
   \<and> (app_rows_from P daysLimit clock amap json i = Inr aparsed \<and> y \<in> set aparsed \<longrightarrow>
      (a_overdue y \<longleftrightarrow> (\<exists>n. a_days y = Some n \<and> js_gt n daysLimit)))
   \<and> (x \<in> set (handleFile P clock [] json) \<longrightarrow>
      (overdue x \<longleftrightarrow> (\<exists>n. days x = Some n \<and> js_gt n (Num 30))
                    \<and> isAffirmative P (paid x) = Inr False))
   \<and> (y \<in> set (parseClick P clock limitText [] json) \<longrightarrow>
      (a_overdue y \<longleftrightarrow> (\<exists>n. a_days y = Some n \<and> js_gt n (daysLimit_of P limitText))))"
proof -
  have a: "overdue x \<longleftrightarrow> (\<exists>n. days x = Some n \<and> js_gt n (Num 30))
                    \<and> isAffirmative P (paid x) = Inr False"
    if "handleFile_row P today colMap r i = Inr x"
    using handleFile_row_fields[OF that] classify_overdue by blast
  have b: "ov \<longleftrightarrow> (\<exists>n. d = Some n \<and> js_gt n (Num 30)) \<and> isAffirmative P pv = Inr False"
    if "classify P today pd pv = Inr (d, ov)"
    using that by (rule classify_overdue)
  have c: "a_overdue y \<longleftrightarrow> (\<exists>n. a_days y = Some n \<and> js_gt n daysLimit)"
    if "app_row_of P daysLimit today amap r i = Inr y"
    using app_row_of_fields[OF that] by (auto simp: app_overdue_def split: option.splits)
  have d: "overdue x \<longleftrightarrow> (\<exists>n. days x = Some n \<and> js_gt n (Num 30))
                    \<and> isAffirmative P (paid x) = Inr False"
    if "rows_from P clock colMap json i = Inr parsed" "x \<in> set parsed"
  proof -
    from rows_from_member[OF that] obtain k r'
      where "handleFile_row P (clock k) colMap r' k = Inr x" by blast
    from handleFile_row_fields[OF this] classify_overdue show ?thesis by blast
  qed
  have e: "a_overdue y \<longleftrightarrow> (\<exists>n. a_days y = Some n \<and> js_gt n daysLimit)"
    if "app_rows_from P daysLimit clock amap json i = Inr aparsed" "y \<in> set aparsed"
  proof -
    from app_rows_from_member[OF that] obtain k r'
      where "app_row_of P daysLimit (clock k) amap r' k = Inr y" by blast
    from app_row_of_fields[OF this] show ?thesis
      by (auto simp: app_overdue_def split: option.splits)
  qed
  have f: "overdue x \<longleftrightarrow> (\<exists>n. days x = Some n \<and> js_gt n (Num 30))
                    \<and> isAffirmative P (paid x) = Inr False"
    if "x \<in> set (handleFile P clock [] json)"
  proof -
    from handleFile_fresh[OF that] obtain cm parsed' where
      "rows_from P clock cm json 0 = Inr parsed'" "x \<in> set parsed'" by blast
    from rows_from_member[OF this] obtain k r'
      where "handleFile_row P (clock k) cm r' k = Inr x" by blast
    from handleFile_row_fields[OF this] classify_overdue show ?thesis by blast
  qed
  have g: "a_overdue y \<longleftrightarrow> (\<exists>n. a_days y = Some n \<and> js_gt n (daysLimit_of P limitText))"
    if "y \<in> set (parseClick P clock limitText [] json)"
  proof -
    from parseClick_fresh[OF that] obtain am parsed' where
      "app_rows_from P (daysLimit_of P limitText) clock am json 0 = Inr parsed'"
      "y \<in> set parsed'" by blast
    from app_rows_from_member[OF this] obtain k r'
      where "app_row_of P (daysLimit_of P limitText) (clock k) am r' k = Inr y" by blast
    from app_row_of_fields[OF this] show ?thesis
      by (auto simp: app_overdue_def split: option.splits)
  qed
  show ?thesis using a b c d e f g by blast
qed

theorem overdue_classification_witness:
  "handleFile_row ref_platform example_today (mapColumns (map fst example_sheet_row))
       example_sheet_row 0 = Inr example_row_paid
   \<and> days example_row_paid = Some (Num 45) \<and> js_gt (Num 45) (Num 30)
   \<and> isAffirmative ref_platform (paid example_row_paid) = Inr True
   \<and> \<not> overdue example_row_paid
   \<and> classify ref_platform example_today (Some (Some 1609459200000)) (JStr ''no'')
       = Inr (Some (Num 45), True)
   \<and> isAffirmative ref_platform (JStr ''no'') = Inr False
   \<and> app_row_of ref_platform (Num 30) example_today (app_map (map fst example_sheet_row))
       example_sheet_row 0 = Inr example_app_row
   \<and> a_days example_app_row = Some (Num 45)
   \<and> a_overdue example_app_row
   \<and> rows_from ref_platform (\<lambda>k. example_today) (mapColumns (map fst example_sheet_row))
       [example_sheet_row] 0 = Inr [example_row_paid]
   \<and> app_rows_from ref_platform (Num 30) (\<lambda>k. example_today)
       (app_map (map fst example_sheet_row)) [example_sheet_row] 0 = Inr [example_app_row]
   \<and> handleFile ref_platform (\<lambda>k. example_today) [] [example_sheet_row] = [example_row_paid]
   \<and> daysLimit_of ref_platform ''30'' = Num 30
   \<and> parseClick ref_platform (\<lambda>k. example_today) ''30'' [] [example_sheet_row]
       = [example_app_row]"
proof -
  let ?cm = "mapColumns (map fst example_sheet_row)"
  let ?am = "app_map (map fst example_sheet_row)"
  have d: "days example_row_paid = Some (Num 45)" "a_days example_app_row = Some (Num 45)"
    by (simp_all add: example_row_paid_def example_row_def example_app_row_def)
  have g: "js_gt (Num 45) (Num 30)" by simp
  have y: "isAffirmative ref_platform (paid example_row_paid) = Inr True"
    by (simp add: example_row_paid_def example_row_def isAffirmative_eq truthy_def ToString_def
        toLowerCase_def toLowerChar_y)
  have n: "isAffirmative ref_platform (JStr ''no'') = Inr False"
    by (simp add: isAffirmative_eq truthy_def ToString_def toLowerCase_def toLowerChar_y)
  have diff: "differenceInCalendarDays ref_platform (Some example_today) (Some 1609459200000) = Num 45"
    by code_simp
  note inst = overdue_classification[where P = ref_platform and today = example_today
      and colMap = ?cm and r = example_sheet_row and i = 0 and x = example_row_paid
      and pd = "Some (Some 1609459200000)" and pv = "JStr ''no''" and d = "Some (Num 45)"
      and ov = True and daysLimit = "Num 30" and amap = ?am and y = example_app_row
      and clock = "\<lambda>k. example_today" and json = "[example_sheet_row]"
      and parsed = "[example_row_paid]" and aparsed = "[example_app_row]"
      and limitText = "''30''"]
  from inst[THEN conjunct1] example_row_paid_imported y
  have r1: "\<not> overdue example_row_paid" by simp
  have r2: "classify ref_platform example_today (Some (Some 1609459200000)) (JStr ''no'')
       = Inr (Some (Num 45), True)"
    using diff n by (simp add: classify_def)
  from inst[THEN conjunct2, THEN conjunct2, THEN conjunct1] example_app_row_imported d g
  have r3: "a_overdue example_app_row" by blast
  have l1: "rows_from ref_platform (\<lambda>k. example_today) ?cm [example_sheet_row] 0
      = Inr [example_row_paid]"
    using example_row_paid_imported by simp
  have l2: "app_rows_from ref_platform (Num 30) (\<lambda>k. example_today) ?am [example_sheet_row] 0
      = Inr [example_app_row]"
    using example_app_row_imported by simp
  from inst[THEN conjunct2, THEN conjunct2, THEN conjunct2, THEN conjunct1] l1 y
  have r4: "\<not> overdue example_row_paid" by simp
  from inst[THEN conjunct2, THEN conjunct2, THEN conjunct2, THEN conjunct2, THEN conjunct1] l2 d g
  have r5: "a_overdue example_app_row" by auto
  from inst[THEN conjunct2, THEN conjunct1] r2
  have n': "isAffirmative ref_platform (JStr ''no'') = Inr False" by simp
  have h1: "handleFile ref_platform (\<lambda>k. example_today) [] [example_sheet_row]
      = [example_row_paid]"
    using l1 by (simp add: handleFile_def)
  have lim: "daysLimit_of ref_platform ''30'' = Num 30" by code_simp
  have h2: "parseClick ref_platform (\<lambda>k. example_today) ''30'' [] [example_sheet_row]
      = [example_app_row]"
    using l2 lim by (simp add: parseClick_def)
  from inst[THEN conjunct2, THEN conjunct2, THEN conjunct2, THEN conjunct2, THEN conjunct2,
      THEN conjunct1] h1 y
  have r6: "\<not> overdue example_row_paid" by simp
  from inst[THEN conjunct2, THEN conjunct2, THEN conjunct2, THEN conjunct2, THEN conjunct2,
      THEN conjunct2] h2 lim d g
  have r7: "a_overdue example_app_row" by auto
  show ?thesis
    using example_row_paid_imported d g y r1 r2 n' example_app_row_imported r3 l1 l2 r4 r5
      h1 lim h2 r6 r7
    by blast
qed

text \<open>The claim as stated fails for the script: the sheet row is marked as paid, its
  age of 45 days is over the limit of 30, and the imported record is overdue.\<close>

theorem overdue_paid_counterexample:
  "app_row_of ref_platform (Num 30) example_today (app_map (map fst example_sheet_row))
       example_sheet_row 0 = Inr example_app_row
   \<and> a_overdue example_app_row
   \<and> a_days example_app_row = Some (Num 45)
   \<and> prop_get example_sheet_row ''Paid'' = JStr ''yes''
   \<and> isAffirmative ref_platform (prop_get example_sheet_row ''Paid'') = Inr True"
proof -
  have p: "prop_get example_sheet_row ''Paid'' = JStr ''yes''"
    by (simp add: prop_get_def example_sheet_row_def)
  have y: "isAffirmative ref_platform (JStr ''yes'') = Inr True"
    by (simp add: isAffirmative_eq truthy_def ToString_def toLowerCase_def toLowerChar_y)
  show ?thesis using example_app_row_imported p y by (simp add: example_app_row_def)
qed

end
